theory Spec2Isabelle
  imports Main "HOL-Library.Word"
begin

section \<open>The persistence engine of \<open>Model\<close> (src/Model.hpp, src/Model.cpp)\<close>

text \<open>
  \<open>Model\<close> is a QObject that saves itself to one table by walking the properties its
  most derived class declares. The embedding keeps every \<open>Model\<close> object in a heap
  (a list addressed by position), the database behind an abstract driver, and threads
  both through every method as a world. A method returns \<open>Inr (result, world)\<close>, or
  \<open>Inl\<close> a fault where the C++ has no result: a null or dangling \<open>Model*\<close> is
  dereferenced, or the recursion through related models does not end within the
  given fuel.
\<close>

subsection \<open>Values, queries and the database driver\<close>

type_synonym addr = nat
type_synonym cname = string
type_synonym model_id_t = "64 word"

text \<open>
  The QVariant payloads the engine tells apart: the invalid variant, a signed 64-bit
  integer (QMetaType::LongLong, what a driver returns for an integer column), a
  \<open>model_id_t\<close>, text, and a pointer to an entity of a named class (\<open>None\<close> is
  \<open>nullptr\<close>).
\<close>

datatype qvariant =
    Invalid
  | LongLong int
  | ULongLong model_id_t
  | Text string
  | ModelPtr cname "addr option"

text \<open>
  A prepared QSqlQuery: its statement, the values bound to named placeholders
  (\<open>bindValue\<close>) and those bound by position (\<open>addBindValue\<close>).
\<close>

record query =
  sql :: string
  binds :: "string \<rightharpoonup> qvariant"
  positional :: "qvariant list"

definition bindValue :: "string \<Rightarrow> qvariant \<Rightarrow> query \<Rightarrow> query" where
  "bindValue placeholder v q = q\<lparr>binds := (binds q)(placeholder \<mapsto> v)\<rparr>"

definition addBindValue :: "qvariant \<Rightarrow> query \<Rightarrow> query" where
  "addBindValue v q = q\<lparr>positional := positional q @ [v]\<rparr>"

text \<open>
  What \<open>exec()\<close> reports: an error, or success with \<open>lastInsertId()\<close> and the first
  row of the result (\<open>None\<close> when \<open>first()\<close> is false).
\<close>

datatype reply = ExecError | ExecOk qvariant "(string \<rightharpoonup> qvariant) option"

record 'db driver =
  drv_prepare :: "'db \<Rightarrow> string \<Rightarrow> bool"
  drv_exec :: "'db \<Rightarrow> query \<Rightarrow> reply \<times> 'db"

text \<open>\<open>query.value(name)\<close>: the field of the current row, invalid when there is none.\<close>

definition row_value :: "(string \<rightharpoonup> qvariant) \<Rightarrow> string \<Rightarrow> qvariant" where
  "row_value row name = (case row name of None \<Rightarrow> Invalid | Some v \<Rightarrow> v)"

text \<open>
  \<open>QVariant::toUInt()\<close> yields a 32-bit \<open>uint\<close>: an integer is cast (it wraps), text is
  read as a decimal number and gives 0 when it is not one or does not fit, and any
  other variant gives 0.
\<close>

definition digit :: "char \<Rightarrow> bool" where
  "digit c = (48 \<le> (of_char c :: nat) \<and> (of_char c :: nat) \<le> 57)"

definition decimal :: "string \<Rightarrow> nat" where
  "decimal s = foldl (\<lambda>acc c. 10 * acc + ((of_char c :: nat) - 48)) 0 s"

definition toUInt :: "qvariant \<Rightarrow> 32 word" where
  "toUInt v = (case v of
       LongLong n \<Rightarrow> word_of_int n
     | ULongLong u \<Rightarrow> ucast u
     | Text s \<Rightarrow> (if s \<noteq> [] \<and> list_all digit s \<and> decimal s < 2 ^ 32
                  then of_nat (decimal s) else 0)
     | _ \<Rightarrow> 0)"

definition isLongLong :: "qvariant \<Rightarrow> bool" where
  "isLongLong v = (case v of LongLong _ \<Rightarrow> True | _ \<Rightarrow> False)"

subsection \<open>Meta-object information of the entity classes\<close>

text \<open>
  The type of a property is a pointer to an entity class (\<open>isPropertyModel\<close> holds) or
  any other meta type, named. \<open>pwritable\<close> says whether the Q_PROPERTY has a WRITE
  accessor.
\<close>

datatype ptype = TModel cname | TPlain string

record property =
  pname :: string
  ptype :: ptype
  pwritable :: bool

text \<open>
  What the engine reads from the meta-object system and from the derived classes, which
  are not part of src/: the table name (the pure virtual \<open>tableName()\<close>), the properties
  between \<open>propertyOffset()\<close> and \<open>propertyCount()\<close> in declaration order, whether
  \<open>newInstance()\<close> can construct the class (it returns \<open>nullptr\<close> otherwise), the values
  the constructor of the derived class leaves in its members, and QVariant's conversion
  to a non-pointer meta type. Entity classes are taken to derive from \<open>Model\<close> directly
  and to override none of its virtual methods; the properties they inherit are \<open>id\<close> of
  \<open>Model\<close> and \<open>objectName\<close> of QObject.
\<close>

record schema =
  tableName :: "cname \<Rightarrow> string"
  properties :: "cname \<Rightarrow> property list"
  constructible :: "cname \<Rightarrow> bool"
  initial :: "cname \<Rightarrow> string \<Rightarrow> qvariant"
  plainConvert :: "string \<Rightarrow> qvariant \<Rightarrow> qvariant option"

definition isPropertyModel :: "property \<Rightarrow> bool" where
  "isPropertyModel p = (case ptype p of TModel _ \<Rightarrow> True | TPlain _ \<Rightarrow> False)"

text \<open>
  The conversion \<open>QMetaProperty::write\<close> applies to its argument: an invalid variant
  becomes a default value (the null pointer for an entity pointer), an entity pointer
  is taken by a property of its class, and nothing else converts to an entity pointer.
\<close>

definition convert :: "schema \<Rightarrow> ptype \<Rightarrow> qvariant \<Rightarrow> qvariant option" where
  "convert S t v = (case t of
       TPlain k \<Rightarrow> plainConvert S k v
     | TModel c \<Rightarrow> (case v of
           Invalid \<Rightarrow> Some (ModelPtr c None)
         | ModelPtr c' x \<Rightarrow> if c' = c then Some (ModelPtr c' x) else None
         | _ \<Rightarrow> None))"

text \<open>
  The properties every entity inherits: the read-only \<open>id\<close> of \<open>Model\<close> (Model.hpp 17)
  and \<open>objectName\<close> of QObject, a QString with a WRITE accessor.
\<close>

definition id_property :: property where
  "id_property = \<lparr>pname = ''id'', ptype = TPlain ''model_id_t'', pwritable = False\<rparr>"

definition objectName_property :: property where
  "objectName_property = \<lparr>pname = ''objectName'', ptype = TPlain ''QString'', pwritable = True\<rparr>"

text \<open>
  \<open>metaObject()->property(metaObject()->indexOfProperty(name))\<close>: the class's own
  properties are searched before the inherited ones; \<open>None\<close> is the invalid
  QMetaProperty of index -1.
\<close>

definition lookupProperty :: "schema \<Rightarrow> cname \<Rightarrow> string \<Rightarrow> property option" where
  "lookupProperty S c name =
     (case find (\<lambda>p. pname p = name) (properties S c) of
        Some p \<Rightarrow> Some p
      | None \<Rightarrow> if name = ''id'' then Some id_property
                else if name = ''objectName'' then Some objectName_property
                else None)"

subsection \<open>Objects and the world\<close>

text \<open>
  The name QObject keeps (\<open>objectName\<close>), the members of \<open>Model\<close> (\<open>m_id\<close>,
  \<open>m_modifiedProperties\<close>), the members of the derived class behind its properties
  (\<open>members\<close>), QObject's dynamic properties and whether \<open>deleteLater()\<close> was called. The QSet of modified names is kept as the
  duplicate-free list in which it is iterated.
\<close>

record obj =
  cls :: cname
  objectName :: string
  m_id :: model_id_t
  m_modifiedProperties :: "string list"
  members :: "string \<Rightarrow> qvariant"
  dynamicProperties :: "string \<rightharpoonup> qvariant"
  deleteLater :: bool

text \<open>
  \<open>garbage a\<close> is what the storage of a new object at address \<open>a\<close> holds before its
  constructor runs; \<open>trace\<close> lists the queries \<open>exec()\<close> was called on, oldest first.
\<close>

record 'db world =
  heap :: "obj list"
  db :: "'db"
  trace :: "query list"
  garbage :: "addr \<Rightarrow> model_id_t"

datatype fault = OutOfFuel | BadPointer

definition deref :: "'db world \<Rightarrow> addr \<Rightarrow> obj option" where
  "deref w a = (if a < length (heap w) then Some (heap w ! a) else None)"

definition update_obj :: "addr \<Rightarrow> (obj \<Rightarrow> obj) \<Rightarrow> 'db world \<Rightarrow> 'db world" where
  "update_obj a f w = w\<lparr>heap := (heap w)[a := f (heap w ! a)]\<rparr>"

text \<open>
  \<open>Model::Model\<close> (Model.cpp 5-8) has an empty body and no member initialiser, and the
  declaration of \<open>m_id\<close> (Model.hpp 148) has none either: \<open>m_id\<close> keeps whatever its
  storage held, here the argument \<open>junk\<close>. The QSet is default-constructed empty, and
  so is the name of the QObject.
\<close>

definition Model_ctor :: "schema \<Rightarrow> cname \<Rightarrow> model_id_t \<Rightarrow> obj" where
  "Model_ctor S c junk =
     \<lparr>cls = c, objectName = [], m_id = junk, m_modifiedProperties = [], members = initial S c,
      dynamicProperties = Map.empty, deleteLater = False\<rparr>"

definition id_of :: "obj \<Rightarrow> model_id_t" where
  "id_of ob = m_id ob"

definition isSaved :: "obj \<Rightarrow> bool" where
  "isSaved ob = (m_id ob \<noteq> 0)"

definition isModified :: "obj \<Rightarrow> bool" where
  "isModified ob = (m_modifiedProperties ob \<noteq> [])"

definition setId :: "model_id_t \<Rightarrow> obj \<Rightarrow> obj" where
  "setId i ob = (if i = m_id ob then ob else ob\<lparr>m_id := i\<rparr>)"

definition setModified :: "string \<Rightarrow> obj \<Rightarrow> obj" where
  "setModified propertyName ob =
     ob\<lparr>m_modifiedProperties := List.insert propertyName (m_modifiedProperties ob)\<rparr>"

definition modifiedProperties :: "obj \<Rightarrow> string list" where
  "modifiedProperties ob = m_modifiedProperties ob"

text \<open>
  \<open>QMetaProperty::read\<close>, by name: a property the class declares reads the member
  behind it, the inherited \<open>id\<close> reads \<open>m_id\<close> and the inherited \<open>objectName\<close> the name
  of the QObject; an invalid property reads as the invalid variant.
\<close>

definition readProperty :: "schema \<Rightarrow> obj \<Rightarrow> string \<Rightarrow> qvariant" where
  "readProperty S ob name =
     (case find (\<lambda>p. pname p = name) (properties S (cls ob)) of
        Some p \<Rightarrow> members ob name
      | None \<Rightarrow> if name = ''id'' then ULongLong (m_id ob)
                else if name = ''objectName'' then Text (objectName ob)
                else Invalid)"

text \<open>
  \<open>QMetaProperty::write\<close> for a property the class declares: \<open>None\<close> when it returns
  false (no WRITE accessor, or the value does not convert). The setter of the derived
  class stores the value and, as Model.hpp 107-113 requires of it, calls \<open>setModified\<close>
  with the property's name.
\<close>

definition writeProperty :: "schema \<Rightarrow> property \<Rightarrow> qvariant \<Rightarrow> obj \<Rightarrow> obj option" where
  "writeProperty S p v ob =
     (if \<not> pwritable p then None
      else (case convert S (ptype p) v of
              None \<Rightarrow> None
            | Some v' \<Rightarrow> Some (setModified (pname p) (ob\<lparr>members := (members ob)(pname p := v')\<rparr>))))"

text \<open>
  \<open>QObject::setProperty\<close>: a name the meta-object lists is written through its
  property (the inherited \<open>id\<close> has no WRITE accessor, the inherited \<open>objectName\<close> is
  set by \<open>setObjectName\<close>, which takes a QString); any other name is a dynamic
  property, removed by an invalid value.
\<close>

definition setProperty :: "schema \<Rightarrow> string \<Rightarrow> qvariant \<Rightarrow> obj \<Rightarrow> obj" where
  "setProperty S name v ob =
     (case find (\<lambda>p. pname p = name) (properties S (cls ob)) of
        Some p \<Rightarrow> (case writeProperty S p v ob of None \<Rightarrow> ob | Some ob' \<Rightarrow> ob')
      | None \<Rightarrow>
          if name = ''id'' then ob
          else if name = ''objectName''
          then (case plainConvert S ''QString'' v of
                  Some (Text s) \<Rightarrow> ob\<lparr>objectName := s\<rparr>
                | _ \<Rightarrow> ob)
          else ob\<lparr>dynamicProperties :=
                    (if v = Invalid then (dynamicProperties ob)(name := None)
                     else (dynamicProperties ob)(name \<mapsto> v))\<rparr>)"

text \<open>\<open>QObject::property\<close>: a listed property is read, any other name is looked up among
  the dynamic properties.\<close>

definition getProperty :: "schema \<Rightarrow> obj \<Rightarrow> string \<Rightarrow> qvariant" where
  "getProperty S ob name =
     (case lookupProperty S (cls ob) name of
        Some p \<Rightarrow> readProperty S ob name
      | None \<Rightarrow> (case dynamicProperties ob name of None \<Rightarrow> Invalid | Some v \<Rightarrow> v))"

subsection \<open>Building and executing statements\<close>

text \<open>
  A QStringList is a list of strings: \<open><<\<close> appends, \<open>removeLast()\<close> drops the last
  element, \<open>last().chop(1)\<close> drops the last character of the last element and
  \<open>join("")\<close> concatenates.
\<close>

definition removeLast :: "string list \<Rightarrow> string list" where
  "removeLast qs = butlast qs"

definition chopLast :: "string list \<Rightarrow> string list" where
  "chopLast qs = butlast qs @ [butlast (last qs)]"

definition join :: "string list \<Rightarrow> string" where
  "join qs = concat qs"

definition prepared :: "string \<Rightarrow> query" where
  "prepared s = \<lparr>sql = s, binds = Map.empty, positional = []\<rparr>"

text \<open>\<open>Model::insertQuery\<close> (Model.cpp 152-182); \<open>None\<close> is the invalid QVariant.\<close>

definition insertQuery_sql :: "schema \<Rightarrow> cname \<Rightarrow> string" where
  "insertQuery_sql S c =
     (let ps = properties S c;
          qs1 = [''INSERT INTO '', tableName S c, '' (''] @ concat (map (\<lambda>p. [pname p, '','']) ps);
          qs2 = removeLast qs1 @ ['') VALUES (''] @ concat (map (\<lambda>p. ['':'' @ pname p, '','']) ps);
          qs3 = removeLast qs2 @ ['')'']
      in join qs3)"

definition insertQuery :: "schema \<Rightarrow> 'db driver \<Rightarrow> 'db world \<Rightarrow> obj \<Rightarrow> query option" where
  "insertQuery S D w ob =
     (if \<not> drv_prepare D (db w) (insertQuery_sql S (cls ob)) then None
      else Some (foldl (\<lambda>q p. bindValue ('':'' @ pname p) (readProperty S ob (pname p)) q)
                   (prepared (insertQuery_sql S (cls ob))) (properties S (cls ob))))"

text \<open>\<open>Model::deleteQuery\<close> (Model.cpp 225-237).\<close>

definition deleteQuery :: "schema \<Rightarrow> 'db driver \<Rightarrow> 'db world \<Rightarrow> obj \<Rightarrow> query option" where
  "deleteQuery S D w ob =
     (let queryStr = ''DELETE FROM '' @ tableName S (cls ob) @ '' WHERE id = ?''
      in if \<not> drv_prepare D (db w) queryStr then None
         else Some (addBindValue (ULongLong (m_id ob)) (prepared queryStr)))"

text \<open>
  \<open>Model::execDML\<close> (Model.cpp 239-256): an invalid variant is refused before anything
  is executed; after a successful \<open>exec()\<close> a valid \<open>lastInsertId()\<close> goes through
  \<open>toUInt()\<close> into \<open>setId\<close>.
\<close>

definition execDML ::
  "'db driver \<Rightarrow> 'db world \<Rightarrow> addr \<Rightarrow> query option \<Rightarrow> fault + bool \<times> 'db world" where
  "execDML D w this variant =
     (case deref w this of
        None \<Rightarrow> Inl BadPointer
      | Some ob \<Rightarrow>
         (case variant of
            None \<Rightarrow> Inr (False, w)
          | Some q \<Rightarrow>
             (case drv_exec D (db w) q of
                (ExecError, db') \<Rightarrow> Inr (False, w\<lparr>db := db', trace := trace w @ [q]\<rparr>)
              | (ExecOk lastInsertId row, db') \<Rightarrow>
                  Inr (True,
                    (if lastInsertId \<noteq> Invalid
                     then update_obj this (setId (ucast (toUInt lastInsertId)))
                            (w\<lparr>db := db', trace := trace w @ [q]\<rparr>)
                     else w\<lparr>db := db', trace := trace w @ [q]\<rparr>)))))"

text \<open>\<open>Model::insert\<close> (Model.cpp 25-31).\<close>

definition insert_model ::
  "schema \<Rightarrow> 'db driver \<Rightarrow> 'db world \<Rightarrow> addr \<Rightarrow> fault + bool \<times> 'db world" where
  "insert_model S D w this =
     (case deref w this of
        None \<Rightarrow> Inl BadPointer
      | Some ob \<Rightarrow>
          if isSaved ob then Inr (False, w)
          else execDML D w this (insertQuery S D w ob))"

text \<open>\<open>Model::deleteFromDatabase\<close> (Model.cpp 46-53).\<close>

definition deleteFromDatabase ::
  "schema \<Rightarrow> 'db driver \<Rightarrow> 'db world \<Rightarrow> addr \<Rightarrow> fault + bool \<times> 'db world" where
  "deleteFromDatabase S D w this =
     (case deref w this of
        None \<Rightarrow> Inl BadPointer
      | Some ob \<Rightarrow>
         (case execDML D w this (deleteQuery S D w ob) of
            Inl e \<Rightarrow> Inl e
          | Inr (False, w1) \<Rightarrow> Inr (False, w1)
          | Inr (True, w1) \<Rightarrow> Inr (True, update_obj this (\<lambda>ob. ob\<lparr>deleteLater := True\<rparr>) w1)))"

text \<open>
  The statement of \<open>Model::updateQuery\<close> (Model.cpp 186-193) over the modified names.
\<close>

definition updateQuery_sql :: "schema \<Rightarrow> cname \<Rightarrow> string list \<Rightarrow> string" where
  "updateQuery_sql S c names =
     (let qs1 = [''UPDATE '', tableName S c, '' SET ''] @
                concat (map (\<lambda>n. [n, '' = :'' @ n @ '','']) names);
          qs2 = chopLast qs1 @ ['' WHERE id = :id'']
      in join qs2)"

text \<open>
  \<open>Model::update\<close> (Model.cpp 33-44), \<open>Model::updateQuery\<close> (Model.cpp 184-223), the
  loop of its lines 201-219 (\<open>bindModified\<close>, over the names still to bind) and the
  two conditions of its lines 210-213 on a related model (\<open>persistRelated\<close>, true
  when neither returns). A related model is inserted and updated through the same
  methods, so the four are mutually recursive; a call of \<open>update\<close> on a related model
  takes one unit of fuel.
\<close>

function (sequential) update :: "nat \<Rightarrow> schema \<Rightarrow> 'db driver \<Rightarrow> 'db world \<Rightarrow> addr \<Rightarrow> fault + bool \<times> 'db world"
and updateQuery ::
  "nat \<Rightarrow> schema \<Rightarrow> 'db driver \<Rightarrow> 'db world \<Rightarrow> addr \<Rightarrow> fault + query option \<times> 'db world"
and bindModified ::
  "nat \<Rightarrow> schema \<Rightarrow> 'db driver \<Rightarrow> 'db world \<Rightarrow> addr \<Rightarrow> query \<Rightarrow> string list
     \<Rightarrow> fault + query option \<times> 'db world"
and persistRelated ::
  "nat \<Rightarrow> schema \<Rightarrow> 'db driver \<Rightarrow> 'db world \<Rightarrow> addr \<Rightarrow> fault + bool \<times> 'db world"
where
  "update n S D w this =
     (case deref w this of
        None \<Rightarrow> Inl BadPointer
      | Some ob \<Rightarrow>
          if \<not> isSaved ob then Inr (False, w)
          else if \<not> isModified ob then Inr (False, w)
          else (case updateQuery n S D w this of
                  Inl e \<Rightarrow> Inl e
                | Inr (variant, w1) \<Rightarrow> execDML D w1 this variant))"
| "updateQuery n S D w this =
     (case deref w this of
        None \<Rightarrow> Inl BadPointer
      | Some ob \<Rightarrow>
          if \<not> drv_prepare D (db w) (updateQuery_sql S (cls ob) (modifiedProperties ob))
          then Inr (None, w)
          else (case bindModified n S D w this
                       (prepared (updateQuery_sql S (cls ob) (modifiedProperties ob)))
                       (modifiedProperties ob) of
                  Inl e \<Rightarrow> Inl e
                | Inr (None, w1) \<Rightarrow> Inr (None, w1)
                | Inr (Some q, w1) \<Rightarrow>
                   (case deref w1 this of
                      None \<Rightarrow> Inl BadPointer
                    | Some ob1 \<Rightarrow> Inr (Some (bindValue '':id'' (ULongLong (id_of ob1)) q), w1))))"
| "bindModified n S D w this q [] = Inr (Some q, w)"
| "bindModified n S D w this q (propertyName # rest) =
     (case deref w this of
        None \<Rightarrow> Inl BadPointer
      | Some ob \<Rightarrow>
         (case readProperty S ob propertyName of
            ModelPtr c None \<Rightarrow> Inl BadPointer
          | ModelPtr c (Some model) \<Rightarrow>
             (case persistRelated n S D w model of
                Inl e \<Rightarrow> Inl e
              | Inr (False, w1) \<Rightarrow> Inr (None, w1)
              | Inr (True, w1) \<Rightarrow>
                 (case deref w1 model of
                    None \<Rightarrow> Inl BadPointer
                  | Some m \<Rightarrow>
                      bindModified n S D w1 this
                        (bindValue ('':'' @ propertyName) (ULongLong (id_of m)) q) rest))
          | value \<Rightarrow> bindModified n S D w this (bindValue ('':'' @ propertyName) value q) rest))"
| "persistRelated n S D w model =
     (case deref w model of
        None \<Rightarrow> Inl BadPointer
      | Some m \<Rightarrow>
         (case (if \<not> isSaved m then insert_model S D w model else Inr (True, w)) of
            Inl e \<Rightarrow> Inl e
          | Inr (False, w1) \<Rightarrow> Inr (False, w1)
          | Inr (True, w1) \<Rightarrow>
             (case deref w1 model of
                None \<Rightarrow> Inl BadPointer
              | Some m1 \<Rightarrow>
                  if isModified m1
                  then (case n of
                          0 \<Rightarrow> Inl OutOfFuel
                        | Suc k \<Rightarrow> update k S D w1 model)
                  else Inr (True, w1))))"

  by pat_completeness auto
termination
  by (relation "measures
        [\<lambda>x. case x of Inl (Inl (n, _)) \<Rightarrow> n | Inl (Inr (n, _)) \<Rightarrow> n
              | Inr (Inl (n, _)) \<Rightarrow> n | Inr (Inr (n, _)) \<Rightarrow> n,
         \<lambda>x. case x of Inl (Inl _) \<Rightarrow> 3 | Inl (Inr _) \<Rightarrow> 2
              | Inr (Inl _) \<Rightarrow> 1 | Inr (Inr _) \<Rightarrow> 0,
         \<lambda>x. case x of Inr (Inl (n, S, D, w, this, q, names)) \<Rightarrow> length names | _ \<Rightarrow> 0]")
     auto

subsection \<open>Loading\<close>

text \<open>
  \<open>Model::createRelatedInstance\<close> (Model.cpp 258-263): \<open>newInstance()\<close> of the meta-object
  of the property's type. The meta-object is null for an invalid property and for a
  property that is no QObject pointer, and it is dereferenced all the same. A new
  object takes the next free address; \<open>nullptr\<close> is \<open>None\<close>.
\<close>

definition createRelatedInstance ::
  "schema \<Rightarrow> 'db world \<Rightarrow> property option \<Rightarrow> fault + addr option \<times> 'db world" where
  "createRelatedInstance S w relatedProperty =
     (case relatedProperty of
        None \<Rightarrow> Inl BadPointer
      | Some p \<Rightarrow>
         (case ptype p of
            TPlain _ \<Rightarrow> Inl BadPointer
          | TModel c \<Rightarrow>
              if constructible S c
              then Inr (Some (length (heap w)),
                        w\<lparr>heap := heap w @ [Model_ctor S c (garbage w (length (heap w)))]\<rparr>)
              else Inr (None, w)))"

text \<open>
  \<open>QVariant::fromValue(related)\<close>: converting the variant goes by the class of the
  object pointed to, which the variant is tagged with here (with the empty name for a
  pointer to no object of the heap, which the engine never wraps).
\<close>

definition fromValue :: "'db world \<Rightarrow> addr \<Rightarrow> qvariant" where
  "fromValue w a = (case deref w a of
       None \<Rightarrow> ModelPtr [] (Some a)
     | Some ob \<Rightarrow> ModelPtr (cls ob) (Some a))"

definition selectQuery_sql :: "schema \<Rightarrow> cname \<Rightarrow> string" where
  "selectQuery_sql S c =
     (let qs1 = [''SELECT ''] @ concat (map (\<lambda>p. [pname p, '','']) (properties S c));
          qs2 = removeLast qs1 @ ['' FROM '', tableName S c, '' WHERE id = :id'']
      in join qs2)"

text \<open>
  \<open>Model::load\<close> (Model.cpp 55-106), its loop over the properties (lines 83-103,
  \<open>loadProperties\<close>, over the properties still to write) and the treatment of a
  related model in lines 87-97 (\<open>resolveRelated\<close>, which yields the value to write).
  An eager load of a related model calls \<open>load\<close> on a new instance and takes one unit
  of fuel.
\<close>

function (sequential) load ::
  "nat \<Rightarrow> schema \<Rightarrow> 'db driver \<Rightarrow> 'db world \<Rightarrow> addr \<Rightarrow> model_id_t \<Rightarrow> bool
     \<Rightarrow> fault + bool \<times> 'db world"
and loadProperties ::
  "nat \<Rightarrow> schema \<Rightarrow> 'db driver \<Rightarrow> 'db world \<Rightarrow> addr \<Rightarrow> (string \<rightharpoonup> qvariant) \<Rightarrow> bool
     \<Rightarrow> property list \<Rightarrow> fault + bool \<times> 'db world"
and resolveRelated ::
  "nat \<Rightarrow> schema \<Rightarrow> 'db driver \<Rightarrow> 'db world \<Rightarrow> addr \<Rightarrow> (string \<rightharpoonup> qvariant) \<Rightarrow> bool
     \<Rightarrow> property \<Rightarrow> fault + qvariant \<times> 'db world"
where
  "load n S D w this ident eagerLoad =
     (case deref w this of
        None \<Rightarrow> Inl BadPointer
      | Some ob \<Rightarrow>
          if \<not> drv_prepare D (db w) (selectQuery_sql S (cls ob)) then Inr (False, w)
          else (case drv_exec D (db w)
                       (bindValue '':id'' (ULongLong ident) (prepared (selectQuery_sql S (cls ob)))) of
                  (ExecError, db') \<Rightarrow>
                    Inr (False, w\<lparr>db := db', trace := trace w @
                      [bindValue '':id'' (ULongLong ident) (prepared (selectQuery_sql S (cls ob)))]\<rparr>)
                | (ExecOk lastInsertId None, db') \<Rightarrow>
                    Inr (False, w\<lparr>db := db', trace := trace w @
                      [bindValue '':id'' (ULongLong ident) (prepared (selectQuery_sql S (cls ob)))]\<rparr>)
                | (ExecOk lastInsertId (Some row), db') \<Rightarrow>
                    loadProperties n S D
                      (w\<lparr>db := db', trace := trace w @
                        [bindValue '':id'' (ULongLong ident) (prepared (selectQuery_sql S (cls ob)))]\<rparr>)
                      this row eagerLoad (properties S (cls ob))))"
| "loadProperties n S D w this row eagerLoad [] = Inr (True, w)"
| "loadProperties n S D w this row eagerLoad (metaProperty # rest) =
     (case resolveRelated n S D w this row eagerLoad metaProperty of
        Inl e \<Rightarrow> Inl e
      | Inr (dbValue, w1) \<Rightarrow>
         (case deref w1 this of
            None \<Rightarrow> Inl BadPointer
          | Some ob \<Rightarrow>
             (case writeProperty S metaProperty dbValue ob of
                None \<Rightarrow> if eagerLoad then Inr (False, w1)
                        else loadProperties n S D w1 this row eagerLoad rest
              | Some ob' \<Rightarrow>
                  loadProperties n S D (update_obj this (\<lambda>_. ob') w1) this row eagerLoad rest)))"
| "resolveRelated n S D w this row eagerLoad metaProperty =
     (if isPropertyModel metaProperty \<and> isLongLong (row_value row (pname metaProperty))
      then (if eagerLoad
            then (case createRelatedInstance S w (Some metaProperty) of
                    Inl e \<Rightarrow> Inl e
                  | Inr (None, w1) \<Rightarrow> Inl BadPointer
                  | Inr (Some related, w1) \<Rightarrow>
                     (case n of
                        0 \<Rightarrow> Inl OutOfFuel
                      | Suc k \<Rightarrow>
                         (case load k S D w1 related
                                 (ucast (toUInt (row_value row (pname metaProperty)))) eagerLoad of
                            Inl e \<Rightarrow> Inl e
                          | Inr (True, w2) \<Rightarrow> Inr (fromValue w2 related, w2)
                          | Inr (False, w2) \<Rightarrow> Inr (row_value row (pname metaProperty), w2))))
            else Inr (row_value row (pname metaProperty),
                      update_obj this
                        (setProperty S (pname metaProperty @ ''Id'')
                           (row_value row (pname metaProperty))) w))
      else Inr (row_value row (pname metaProperty), w))"

  by pat_completeness auto
termination
  by (relation "measures
        [\<lambda>x. case x of Inl (n, _) \<Rightarrow> n | Inr (Inl (n, _)) \<Rightarrow> n | Inr (Inr (n, _)) \<Rightarrow> n,
         \<lambda>x. case x of Inl _ \<Rightarrow> 2 | Inr (Inl _) \<Rightarrow> 1 | Inr (Inr _) \<Rightarrow> 0,
         \<lambda>x. case x of Inr (Inl (n, S, D, w, this, row, eagerLoad, ps)) \<Rightarrow> length ps | _ \<Rightarrow> 0]")
     auto

text \<open>\<open>Model::loadRelated\<close> (Model.cpp 108-125); the result of the final write is dropped.\<close>

definition loadRelated ::
  "nat \<Rightarrow> schema \<Rightarrow> 'db driver \<Rightarrow> 'db world \<Rightarrow> addr \<Rightarrow> string \<Rightarrow> bool
     \<Rightarrow> fault + bool \<times> 'db world" where
  "loadRelated n S D w this propertyName eagerLoad =
     (case deref w this of
        None \<Rightarrow> Inl BadPointer
      | Some ob \<Rightarrow>
          if propertyName @ ''Id'' \<notin> dom (dynamicProperties ob) then Inr (False, w)
          else (case createRelatedInstance S w (lookupProperty S (cls ob) propertyName) of
                  Inl e \<Rightarrow> Inl e
                | Inr (None, w1) \<Rightarrow> Inl BadPointer
                | Inr (Some related, w1) \<Rightarrow>
                   (case load n S D w1 related
                           (ucast (toUInt (getProperty S ob (propertyName @ ''Id'')))) eagerLoad of
                      Inl e \<Rightarrow> Inl e
                    | Inr (False, w2) \<Rightarrow> Inr (False, w2)
                    | Inr (True, w2) \<Rightarrow>
                        Inr (True,
                          update_obj this
                            (\<lambda>ob2. case lookupProperty S (cls ob) propertyName of
                                     None \<Rightarrow> ob2
                                   | Some p \<Rightarrow>
                                      (case writeProperty S p (fromValue w2 related) ob2 of
                                         None \<Rightarrow> ob2
                                       | Some ob' \<Rightarrow> ob'))
                            w2))))"

section \<open>Fixtures and notions of the proofs\<close>

subsection \<open>A small schema, a driver and some worlds\<close>

text \<open>
  The scenario of the specification: an \<open>Order\<close> with a number \<open>total\<close> and a relation
  \<open>customer\<close> to a \<open>Customer\<close> with a \<open>name\<close>. The driver keeps the last row id it
  generated, as SQLite does: every INSERT generates the next one, \<open>lastInsertId()\<close>
  reports the last one generated after any statement, and nothing executes once the
  counter has reached 100. It knows the orders 5 and 8 of customer 7 and the customer 7;
  the column \<open>total\<close> of order 8 holds text that is no number.
\<close>

definition order_properties :: "property list" where
  "order_properties =
     [\<lparr>pname = ''total'', ptype = TPlain ''qlonglong'', pwritable = True\<rparr>,
      \<lparr>pname = ''customer'', ptype = TModel ''Customer'', pwritable = True\<rparr>]"

definition customer_properties :: "property list" where
  "customer_properties = [\<lparr>pname = ''name'', ptype = TPlain ''QString'', pwritable = True\<rparr>]"

definition demo_schema :: schema where
  "demo_schema =
     \<lparr>tableName = (\<lambda>c. if c = ''Order'' then ''orders'' else ''customers''),
      properties = (\<lambda>c. if c = ''Order'' then order_properties else customer_properties),
      constructible = (\<lambda>c. True),
      initial = (\<lambda>c name. if name = ''customer'' then ModelPtr ''Customer'' None else Invalid),
      plainConvert = (\<lambda>k v. case v of
          LongLong i \<Rightarrow> if k = ''qlonglong'' then Some v else None
        | Text s \<Rightarrow> if k = ''QString'' then Some v else None
        | _ \<Rightarrow> None)\<rparr>"

definition demo_rows :: "query \<Rightarrow> (string \<rightharpoonup> qvariant) option" where
  "demo_rows q =
     (if sql q = ''SELECT total,customer FROM orders WHERE id = :id'' \<and>
         binds q '':id'' = Some (ULongLong 5)
      then Some [''total'' \<mapsto> LongLong 42, ''customer'' \<mapsto> LongLong 7]
      else if sql q = ''SELECT total,customer FROM orders WHERE id = :id'' \<and>
         binds q '':id'' = Some (ULongLong 8)
      then Some [''total'' \<mapsto> Text ''n/a'', ''customer'' \<mapsto> LongLong 7]
      else if sql q = ''SELECT name FROM customers WHERE id = :id'' \<and>
         binds q '':id'' = Some (ULongLong 7)
      then Some [''name'' \<mapsto> Text ''Ann'']
      else None)"

definition demo_driver :: "nat driver" where
  "demo_driver =
     \<lparr>drv_prepare = (\<lambda>d s. True),
      drv_exec = (\<lambda>d q.
        if 100 \<le> d then (ExecError, d)
        else if take 6 (sql q) = ''SELECT'' then (ExecOk (LongLong (int d)) (demo_rows q), d)
        else if take 6 (sql q) = ''INSERT'' then (ExecOk (LongLong (int (Suc d))) None, Suc d)
        else (ExecOk (LongLong (int d)) None, d))\<rparr>"

definition customer_obj :: "model_id_t \<Rightarrow> string list \<Rightarrow> obj" where
  "customer_obj i dirty =
     \<lparr>cls = ''Customer'', objectName = [], m_id = i, m_modifiedProperties = dirty,
      members = (\<lambda>name. if name = ''name'' then Text ''Ann'' else Invalid),
      dynamicProperties = Map.empty, deleteLater = False\<rparr>"

definition order_obj :: "model_id_t \<Rightarrow> string list \<Rightarrow> obj" where
  "order_obj i dirty =
     \<lparr>cls = ''Order'', objectName = [], m_id = i, m_modifiedProperties = dirty,
      members = (\<lambda>name. if name = ''total'' then LongLong 42
                        else if name = ''customer'' then ModelPtr ''Customer'' (Some 1)
                        else Invalid),
      dynamicProperties = Map.empty, deleteLater = False\<rparr>"

definition demo_world :: "obj list \<Rightarrow> nat \<Rightarrow> nat world" where
  "demo_world objs d = \<lparr>heap = objs, db = d, trace = [], garbage = (\<lambda>a. 0)\<rparr>"

text \<open>The statement that updates the name of customer 3.\<close>

definition customer_update :: query where
  "customer_update =
     bindValue '':id'' (ULongLong 3)
       (bindValue '':name'' (Text ''Ann'')
          (prepared ''UPDATE customers SET name = :name WHERE id = :id''))"

text \<open>The saved customer 3 once its update has run against the driver at row id 7.\<close>

definition customer_updated :: "nat world" where
  "customer_updated =
     \<lparr>heap = [customer_obj 7 [''name'']], db = 7, trace = [customer_update],
      garbage = (\<lambda>a. 0)\<rparr>"

text \<open>
  The saved order 3 whose modified \<open>customer\<close> is the unsaved, modified Ann, before a
  driver that executes nothing more, and the INSERT of Ann.
\<close>

definition order_of_new_customer :: "nat \<Rightarrow> nat world" where
  "order_of_new_customer d =
     demo_world [order_obj 3 [''customer''], customer_obj 0 [''name'']] d"

definition ann_insert :: query where
  "ann_insert =
     bindValue '':name'' (Text ''Ann'') (prepared ''INSERT INTO customers (name) VALUES (:name)'')"

text \<open>
  The same order before the driver at row id 6: the world once Ann is inserted with
  the id 7, the UPDATE of Ann that follows, and the world after it.
\<close>

definition ann_update :: query where
  "ann_update =
     bindValue '':id'' (ULongLong 7)
       (bindValue '':name'' (Text ''Ann'')
          (prepared ''UPDATE customers SET name = :name WHERE id = :id''))"

definition new_customer_inserted :: "nat world" where
  "new_customer_inserted =
     \<lparr>heap = [order_obj 3 [''customer''], customer_obj 7 [''name'']], db = 7,
      trace = [ann_insert], garbage = (\<lambda>a. 0)\<rparr>"

definition new_customer_updated :: "nat world" where
  "new_customer_updated =
     \<lparr>heap = [order_obj 3 [''customer''], customer_obj 7 [''name'']], db = 7,
      trace = [ann_insert, ann_update], garbage = (\<lambda>a. 0)\<rparr>"

text \<open>
  A new order before the driver at row id 6, and an order that a lazy load has left
  the foreign key 7 of its customer with.
\<close>

definition fresh_order :: "nat world" where
  "fresh_order = demo_world [Model_ctor demo_schema ''Order'' 0] 6"

definition lazy_order :: "nat world" where
  "lazy_order =
     demo_world [(Model_ctor demo_schema ''Order'' 0)
                   \<lparr>dynamicProperties := [''customerId'' \<mapsto> LongLong 7]\<rparr>] 6"

text \<open>
  A driver whose table has outgrown 32 bits: every statement executes, and the last
  row id it reports is \<open>2 ^ 32 + 7\<close>.
\<close>

definition late_driver :: "nat driver" where
  "late_driver =
     \<lparr>drv_prepare = (\<lambda>d s. True),
      drv_exec = (\<lambda>d q. (ExecOk (LongLong 4294967303) None, d))\<rparr>"

text \<open>
  A driver that answers every statement with the one row it is given, and reports no
  row id.
\<close>

definition row_driver :: "(string \<rightharpoonup> qvariant) \<Rightarrow> nat driver" where
  "row_driver row =
     \<lparr>drv_prepare = (\<lambda>d s. True), drv_exec = (\<lambda>d q. (ExecOk Invalid (Some row), d))\<rparr>"

text \<open>
  Two variants of the schema: an \<open>Order\<close> that declares a property \<open>customerId\<close> of its
  own next to \<open>customer\<close>, and an \<open>Order\<close> whose \<open>customer\<close> has no WRITE accessor.
\<close>

definition keyed_schema :: schema where
  "keyed_schema =
     demo_schema\<lparr>properties := (\<lambda>c. if c = ''Order''
        then order_properties @
               [\<lparr>pname = ''customerId'', ptype = TPlain ''qlonglong'', pwritable = True\<rparr>]
        else customer_properties)\<rparr>"

definition readonly_schema :: schema where
  "readonly_schema =
     demo_schema\<lparr>properties := (\<lambda>c. if c = ''Order''
        then [\<lparr>pname = ''total'', ptype = TPlain ''qlonglong'', pwritable = True\<rparr>,
              \<lparr>pname = ''customer'', ptype = TModel ''Customer'', pwritable = False\<rparr>]
        else customer_properties)\<rparr>"

text \<open>
  A schema with a relation of a class to itself: an \<open>Employee\<close> has a \<open>manager\<close>, who is
  an \<open>Employee\<close>. The saved employee 3 has been made the manager of itself.
\<close>

definition staff_schema :: schema where
  "staff_schema =
     demo_schema\<lparr>tableName := (\<lambda>c. ''staff''),
       properties := (\<lambda>c. [\<lparr>pname = ''manager'', ptype = TModel ''Employee'', pwritable = True\<rparr>])\<rparr>"

definition self_managed :: "nat world" where
  "self_managed =
     demo_world
       [\<lparr>cls = ''Employee'', objectName = [], m_id = 3, m_modifiedProperties = [''manager''],
         members = (\<lambda>name. if name = ''manager'' then ModelPtr ''Employee'' (Some 0) else Invalid),
         dynamicProperties = Map.empty, deleteLater = False\<rparr>] 7"

subsection \<open>The SET clause as the specification writes it\<close>

text \<open>
  \<open><dirty1> = :dirty1, ...\<close>: one assignment of a placeholder to its column per name,
  separated by commas.
\<close>

fun set_clause :: "string list \<Rightarrow> string" where
  "set_clause [] = []"
| "set_clause [n] = n @ '' = :'' @ n"
| "set_clause (n # m # ns) = n @ '' = :'' @ n @ '','' @ set_clause (m # ns)"

subsection \<open>What saving leaves alone\<close>

text \<open>
  Two worlds have the same shape when their heaps hold the same objects as far as the
  class and the set of modified names of each go.
\<close>


definition same_shape :: "'db world \<Rightarrow> 'db world \<Rightarrow> bool" where
  "same_shape w w' =
     (map m_modifiedProperties (heap w') = map m_modifiedProperties (heap w) \<and>
      map cls (heap w') = map cls (heap w))"

text \<open>
  What saving may do to a world: the objects of the heap stay as they are but for their
  ids, and statements are added to the trace.
\<close>

definition evolves :: "'db world \<Rightarrow> 'db world \<Rightarrow> bool" where
  "evolves w w' =
     (map (\<lambda>ob. ob\<lparr>m_id := 0\<rparr>) (heap w') = map (\<lambda>ob. ob\<lparr>m_id := 0\<rparr>) (heap w) \<and>
      (\<exists>ts. trace w' = trace w @ ts))"

subsection \<open>Where the recursion of an update ends\<close>

text \<open>
  \<open>update\<close> calls \<open>update\<close> on every modified related model that a modified relation
  attribute points to, with nothing to stop it where these lead back to an entity
  already under way. The relation attributes among the names \<open>names\<close> of an object
  settle when none of them is a null pointer or points out of the heap, and \<open>deeper\<close>
  holds of every modified model one of them points to; \<open>settles n\<close> holds of the object at
  an address when the descent from it through modified related models is at most \<open>n\<close>
  calls deep.
\<close>

definition relations_settle ::
  "(addr \<Rightarrow> bool) \<Rightarrow> schema \<Rightarrow> obj list \<Rightarrow> obj \<Rightarrow> string list \<Rightarrow> bool" where
  "relations_settle deeper S hp ob names =
     (\<forall>x\<in>set names.
        case readProperty S ob x of
          ModelPtr c r \<Rightarrow>
            (case r of
               None \<Rightarrow> False
             | Some m \<Rightarrow> m < length hp \<and> (isModified (hp ! m) \<longrightarrow> deeper m))
        | _ \<Rightarrow> True)"

primrec settles :: "nat \<Rightarrow> schema \<Rightarrow> obj list \<Rightarrow> addr \<Rightarrow> bool" where
  "settles 0 S hp a =
     (a < length hp \<and>
      relations_settle (\<lambda>m. False) S hp (hp ! a) (m_modifiedProperties (hp ! a)))"
| "settles (Suc k) S hp a =
     (a < length hp \<and>
      relations_settle (settles k S hp) S hp (hp ! a) (m_modifiedProperties (hp ! a)))"

subsection \<open>What loading leaves alone\<close>

text \<open>
  A load into the object at \<open>this\<close> may add objects to the heap and may write the
  members and properties of \<open>this\<close>; every other object that was there stays as it
  was, and \<open>this\<close> keeps its class and its id.
\<close>

definition grown :: "addr \<Rightarrow> 'db world \<Rightarrow> 'db world \<Rightarrow> bool" where
  "grown this w w' =
     (length (heap w) \<le> length (heap w') \<and>
      (\<forall>a < length (heap w). a \<noteq> this \<longrightarrow> heap w' ! a = heap w ! a) \<and>
      (this < length (heap w) \<longrightarrow>
         cls (heap w' ! this) = cls (heap w ! this) \<and>
         m_id (heap w' ! this) = m_id (heap w ! this)))"

subsection \<open>One round of a lazy load\<close>

text \<open>
  What lines 85-102 of \<open>Model::load\<close> do to the object for one property when
  \<open>eagerLoad\<close> is false: the foreign key of a related model is set as the property
  \<open>"<name>Id"\<close>, then the value of the column is written, and a write that fails is
  passed over.
\<close>

definition lazy_round :: "schema \<Rightarrow> (string \<rightharpoonup> qvariant) \<Rightarrow> obj \<Rightarrow> property \<Rightarrow> obj" where
  "lazy_round S row ob p =
     (let ob1 = (if isPropertyModel p \<and> isLongLong (row_value row (pname p))
                 then setProperty S (pname p @ ''Id'') (row_value row (pname p)) ob
                 else ob)
      in case writeProperty S p (row_value row (pname p)) ob1 of
           None \<Rightarrow> ob1
         | Some ob' \<Rightarrow> ob')"

subsection \<open>An attribute that holds what was loaded\<close>



declare update.simps [simp del] updateQuery.simps [simp del] persistRelated.simps [simp del]
  bindModified.simps(2) [simp del] load.simps [simp del] resolveRelated.simps [simp del]
  loadProperties.simps(2) [simp del]

section \<open>Basic facts\<close>

subsection \<open>Facts about the fixtures\<close>

lemma demo_schema_simps:
  "tableName demo_schema ''Order'' = ''orders''"
  "tableName demo_schema ''Customer'' = ''customers''"
  "properties demo_schema ''Order'' = order_properties"
  "properties demo_schema ''Customer'' = customer_properties"
  "constructible demo_schema c"
  "initial demo_schema c ''customer'' = ModelPtr ''Customer'' None"
  "plainConvert demo_schema ''QString'' (Text s) = Some (Text s)"
  "plainConvert demo_schema ''qlonglong'' (LongLong i) = Some (LongLong i)"
  "plainConvert demo_schema ''qlonglong'' (Text s) = None"
  by (simp_all add: demo_schema_def)

lemma query_simps:
  "sql (bindValue k v q) = sql q" "sql (prepared s) = s"
  "binds (bindValue k v q) = (binds q)(k \<mapsto> v)" "binds (prepared s) = Map.empty"
  by (simp_all add: bindValue_def prepared_def)

lemma Model_ctor_simps:
  "cls (Model_ctor S c junk) = c" "m_id (Model_ctor S c junk) = junk"
  "m_modifiedProperties (Model_ctor S c junk) = []" "members (Model_ctor S c junk) = initial S c"
  "dynamicProperties (Model_ctor S c junk) = Map.empty"
  by (simp_all add: Model_ctor_def)

lemma demo_insert_sql:
  "insertQuery_sql demo_schema ''Order'' =
     ''INSERT INTO orders (total,customer) VALUES (:total,:customer)''"
  "insertQuery_sql demo_schema ''Customer'' = ''INSERT INTO customers (name) VALUES (:name)''"
  by (simp_all add: insertQuery_sql_def demo_schema_simps order_properties_def
      customer_properties_def removeLast_def join_def)

lemma demo_select_sql:
  "selectQuery_sql demo_schema ''Order'' = ''SELECT total,customer FROM orders WHERE id = :id''"
  "selectQuery_sql demo_schema ''Customer'' = ''SELECT name FROM customers WHERE id = :id''"
  by (simp_all add: selectQuery_sql_def demo_schema_simps order_properties_def
      customer_properties_def removeLast_def join_def)

lemma demo_update_sql:
  "updateQuery_sql demo_schema ''Order'' [''customer''] =
     ''UPDATE orders SET customer = :customer WHERE id = :id''"
  "updateQuery_sql demo_schema ''Customer'' [''name''] =
     ''UPDATE customers SET name = :name WHERE id = :id''"
  by (simp_all add: updateQuery_sql_def demo_schema_simps chopLast_def join_def)

lemma demo_read:
  "readProperty demo_schema (order_obj i ds) ''total'' = LongLong 42"
  "readProperty demo_schema (order_obj i ds) ''customer'' = ModelPtr ''Customer'' (Some 1)"
  "readProperty demo_schema (customer_obj i ds) ''name'' = Text ''Ann''"
  by (simp_all add: readProperty_def order_obj_def customer_obj_def demo_schema_simps
      order_properties_def customer_properties_def)

lemma demo_obj_simps:
  "cls (order_obj i ds) = ''Order''" "cls (customer_obj i ds) = ''Customer''"
  "m_id (order_obj i ds) = i" "m_id (customer_obj i ds) = i"
  "m_modifiedProperties (order_obj i ds) = ds" "m_modifiedProperties (customer_obj i ds) = ds"
  by (simp_all add: order_obj_def customer_obj_def)

lemma demo_exec:
  "d < 100 \<Longrightarrow> take 6 (sql q) = ''INSERT'' \<Longrightarrow>
     drv_exec demo_driver d q = (ExecOk (LongLong (int (Suc d))) None, Suc d)"
  "d < 100 \<Longrightarrow> take 6 (sql q) = ''UPDATE'' \<Longrightarrow>
     drv_exec demo_driver d q = (ExecOk (LongLong (int d)) None, d)"
  "d < 100 \<Longrightarrow> take 6 (sql q) = ''SELECT'' \<Longrightarrow>
     drv_exec demo_driver d q = (ExecOk (LongLong (int d)) (demo_rows q), d)"
  "100 \<le> d \<Longrightarrow> drv_exec demo_driver d q = (ExecError, d)"
  "drv_prepare demo_driver d s"
  by (simp_all add: demo_driver_def)

lemma deref_demo:
  "deref (demo_world [a] d) 0 = Some a"
  "deref (demo_world [a, b] d) 0 = Some a"
  "deref (demo_world [a, b] d) (Suc 0) = Some b"
  by (simp_all add: deref_def demo_world_def)

lemma demo_world_simps:
  "db (demo_world objs d) = d" "heap (demo_world objs d) = objs" "trace (demo_world objs d) = []"
  by (simp_all add: demo_world_def)

subsection \<open>Saving changes neither classes nor sets of modified names\<close>

lemma same_shape_refl [simp]: "same_shape w w"
  by (simp add: same_shape_def)

lemma same_shape_trans: "same_shape w w1 \<Longrightarrow> same_shape w1 w2 \<Longrightarrow> same_shape w w2"
  by (simp add: same_shape_def)

lemma same_shape_length: "same_shape w w' \<Longrightarrow> length (heap w') = length (heap w)"
  unfolding same_shape_def by (metis length_map)

lemma same_shape_deref:
  assumes "same_shape w w'" "deref w a = Some ob"
  shows "\<exists>ob'. deref w' a = Some ob' \<and> m_modifiedProperties ob' = m_modifiedProperties ob \<and>
           cls ob' = cls ob"
proof -
  from assms have a: "a < length (heap w)" and ob: "ob = heap w ! a"
    by (auto simp: deref_def split: if_splits)
  from assms(1) have len: "length (heap w') = length (heap w)" by (rule same_shape_length)
  from assms(1) have "map m_modifiedProperties (heap w') ! a = map m_modifiedProperties (heap w) ! a"
    and "map cls (heap w') ! a = map cls (heap w) ! a"
    by (simp_all add: same_shape_def)
  with a len ob show ?thesis by (simp add: deref_def)
qed

lemma map_update_same:
  "f (g (xs ! a)) = f (xs ! a) \<Longrightarrow> map f (xs[a := g (xs ! a)]) = map f xs"
proof (cases "a < length xs")
  case True
  assume "f (g (xs ! a)) = f (xs ! a)"
  with True show ?thesis by (simp add: map_update list_update_same_conv)
next
  case False
  then have "length xs \<le> a" by simp
  then show ?thesis by (simp add: list_update_beyond)
qed

lemma same_shape_setId: "same_shape w (update_obj a (setId i) w)"
  by (simp add: same_shape_def update_obj_def map_update_same setId_def)

lemma same_shape_db_trace [simp]: "same_shape w (w\<lparr>db := d, trace := t\<rparr>)"
  by (simp add: same_shape_def)

lemma execDML_shape: "execDML D w this v = Inr (b, w') \<Longrightarrow> same_shape w w'"
  by (auto simp: execDML_def split: option.splits reply.splits prod.splits if_splits
      intro: same_shape_trans [OF same_shape_db_trace same_shape_setId])

lemma insert_model_shape: "insert_model S D w this = Inr (b, w') \<Longrightarrow> same_shape w w'"
  by (auto simp: insert_model_def split: option.splits if_splits dest: execDML_shape)

lemma persistRelated_shape:
  assumes IH: "\<And>k w this b w'. n = Suc k \<Longrightarrow> update k S D w this = Inr (b, w') \<Longrightarrow> same_shape w w'"
    and run: "persistRelated n S D w model = Inr (b, w')"
  shows "same_shape w w'"
proof -
  from run obtain m where m: "deref w model = Some m"
    by (auto simp: persistRelated.simps split: option.splits)
  define r where "r = (if \<not> isSaved m then insert_model S D w model else Inr (True, w))"
  from run m obtain ok w1 where r: "r = Inr (ok, w1)"
    by (cases r) (auto simp: persistRelated.simps r_def split: if_splits)
  have s1: "same_shape w w1"
    using r by (auto simp: r_def split: if_splits dest: insert_model_shape)
  show ?thesis
  proof (cases ok)
    case False
    with run m r have "w' = w1" by (simp add: persistRelated.simps r_def split: if_splits)
    with s1 show ?thesis by simp
  next
    case True
    with run m r obtain m1 where m1: "deref w1 model = Some m1"
      by (auto simp: persistRelated.simps r_def split: option.splits if_splits)
    show ?thesis
    proof (cases "isModified m1")
      case False
      with run m r True m1 have "w' = w1"
        by (simp add: persistRelated.simps r_def split: if_splits)
      with s1 show ?thesis by simp
    next
      case mod: True
      with run m r True m1 obtain k where "n = Suc k" "update k S D w1 model = Inr (b, w')"
        by (cases n) (auto simp: persistRelated.simps r_def split: if_splits)
      then have "same_shape w1 w'" by (rule IH)
      with s1 show ?thesis by (rule same_shape_trans)
    qed
  qed
qed

lemma bindModified_shape:
  assumes IH: "\<And>k w this b w'. n = Suc k \<Longrightarrow> update k S D w this = Inr (b, w') \<Longrightarrow> same_shape w w'"
  shows "bindModified n S D w this q names = Inr (v, w') \<Longrightarrow> same_shape w w'"
proof (induction names arbitrary: w q)
  case Nil
  then show ?case by simp
next
  case (Cons p rest)
  from Cons.prems obtain ob where ob: "deref w this = Some ob"
    by (auto simp: bindModified.simps split: option.splits)
  show ?case
  proof (cases "readProperty S ob p")
    case (ModelPtr c x)
    with Cons.prems ob obtain model where x: "x = Some model"
      by (cases x) (auto simp: bindModified.simps)
    from Cons.prems ob ModelPtr x obtain ok w1 where pr: "persistRelated n S D w model = Inr (ok, w1)"
      by (cases "persistRelated n S D w model") (auto simp: bindModified.simps)
    from IH pr have s1: "same_shape w w1" by (rule persistRelated_shape)
    show ?thesis
    proof (cases ok)
      case False
      with Cons.prems ob ModelPtr x pr have "w' = w1" by (simp add: bindModified.simps)
      with s1 show ?thesis by simp
    next
      case True
      with Cons.prems ob ModelPtr x pr obtain m where
        "bindModified n S D w1 this (bindValue ('':'' @ p) (ULongLong (id_of m)) q) rest = Inr (v, w')"
        by (auto simp: bindModified.simps split: option.splits)
      then have "same_shape w1 w'" by (rule Cons.IH)
      with s1 show ?thesis by (rule same_shape_trans)
    qed
  qed (use Cons.prems ob in \<open>auto simp: bindModified.simps intro: Cons.IH\<close>)
qed

lemma updateQuery_shape:
  assumes IH: "\<And>k w this b w'. n = Suc k \<Longrightarrow> update k S D w this = Inr (b, w') \<Longrightarrow> same_shape w w'"
    and run: "updateQuery n S D w this = Inr (v, w')"
  shows "same_shape w w'"
  using run bindModified_shape [OF IH]
  by (auto simp: updateQuery.simps split: option.splits if_splits sum.splits prod.splits)

lemma update_shape: "update n S D w this = Inr (b, w') \<Longrightarrow> same_shape w w'"
proof (induction n arbitrary: w this b w')
  case 0
  have "same_shape w w1" if "updateQuery 0 S D w this = Inr (v, w1)" for v w1
    using _ that by (rule updateQuery_shape) simp
  with "0.prems" show ?case
    by (auto simp: update.simps split: option.splits if_splits sum.splits prod.splits
        dest!: execDML_shape intro: same_shape_trans)
next
  case (Suc n)
  have "same_shape w w1" if "updateQuery (Suc n) S D w this = Inr (v, w1)" for v w1
    using _ that by (rule updateQuery_shape) (simp add: Suc.IH)
  with Suc.prems show ?case
    by (auto simp: update.simps split: option.splits if_splits sum.splits prod.splits
        dest!: execDML_shape intro: same_shape_trans)
qed

lemma bindModified_same_shape:
  "bindModified n S D w this q names = Inr (v, w') \<Longrightarrow> same_shape w w'"
  by (rule bindModified_shape) (rule update_shape)

lemma bindModified_deref:
  assumes "bindModified n S D w this q names = Inr (v, w')" "deref w a = Some ob"
  shows "\<exists>ob'. deref w' a = Some ob'"
  using same_shape_deref [OF bindModified_same_shape [OF assms(1)] assms(2)] by blast

section \<open>Saving\<close>

subsection \<open>The state guards and the constructor\<close>

text \<open>
  C6. \<open>insert\<close> on an entity that is already saved fails, and \<open>update\<close> on an entity
  that is not saved fails; either way the world that comes back is the world that
  went in: no statement is executed and no object changes.
\<close>

theorem state_guards:
  assumes "deref w this = Some ob"
  shows "(isSaved ob \<longrightarrow> insert_model S D w this = Inr (False, w)) \<and>
         (\<not> isSaved ob \<longrightarrow> update n S D w this = Inr (False, w))"
  using assms by (simp add: insert_model_def update.simps)

theorem state_guards_witness:
  "insert_model demo_schema demo_driver (demo_world [customer_obj 7 [''name'']] 7) 0 =
     Inr (False, demo_world [customer_obj 7 [''name'']] 7) \<and>
   update 1 demo_schema demo_driver (demo_world [customer_obj 0 [''name'']] 7) 0 =
     Inr (False, demo_world [customer_obj 0 [''name'']] 7)"
  using state_guards [of "demo_world [customer_obj 7 [''name'']] 7" 0 "customer_obj 7 [''name'']"
      demo_schema demo_driver 1]
    state_guards [of "demo_world [customer_obj 0 [''name'']] 7" 0 "customer_obj 0 [''name'']"
      demo_schema demo_driver 1]
  by (simp add: deref_demo isSaved_def demo_obj_simps)

text \<open>
  C2, as the specification has it, fails: \<open>update\<close> on the saved customer 7 with no
  modified property executes nothing, but what it returns is false.
\<close>

theorem update_clean_counterexample:
  "deref (demo_world [customer_obj 7 []] 7) 0 = Some (customer_obj 7 []) \<and>
   isSaved (customer_obj 7 []) \<and> \<not> isModified (customer_obj 7 []) \<and>
   update 1 demo_schema demo_driver (demo_world [customer_obj 7 []] 7) 0 =
     Inr (False, demo_world [customer_obj 7 []] 7)"
  by (simp add: deref_demo isSaved_def isModified_def demo_obj_simps update.simps)

text \<open>
  C2, amended. \<open>update\<close> on a saved entity with no modified property executes no
  statement, changes nothing and returns false, as Model.hpp 49-56 documents.
\<close>

theorem update_clean_fails:
  assumes "deref w this = Some ob" "isSaved ob" "\<not> isModified ob"
  shows "update n S D w this = Inr (False, w)"
  using assms by (simp add: update.simps)

theorem update_clean_fails_witness:
  "update 1 demo_schema demo_driver (demo_world [customer_obj 7 []] 7) 0 =
     Inr (False, demo_world [customer_obj 7 []] 7)"
  using update_clean_fails [of "demo_world [customer_obj 7 []] 7" 0 "customer_obj 7 []" 1
      demo_schema demo_driver]
  by (simp add: deref_demo isSaved_def isModified_def demo_obj_simps)

text \<open>
  C9 does not hold of the constructor: it leaves \<open>m_id\<close> as the storage held it, so an
  entity constructed over storage that held 1 has the id 1 and counts as saved.
\<close>

theorem constructed_id_is_indeterminate:
  "id_of (Model_ctor demo_schema ''Customer'' 1) = 1 \<and>
   isSaved (Model_ctor demo_schema ''Customer'' 1)"
  by (simp add: id_of_def isSaved_def Model_ctor_def)

subsection \<open>Inserting\<close>

text \<open>
  C1 does not hold of \<open>insert\<close>: for the unsaved order of the unsaved customer Ann, one
  statement is executed, the INSERT of the order; its placeholder \<open>:customer\<close> is bound
  to the pointer to Ann, and Ann is neither inserted nor given an id.
\<close>

theorem insert_binds_related_object:
  "case insert_model demo_schema demo_driver
          (demo_world [order_obj 0 [''customer'', ''total''], customer_obj 0 [''name'']] 6) 0 of
     Inl e \<Rightarrow> False
   | Inr (ok, w) \<Rightarrow> ok \<and>
       map sql (trace w) = [''INSERT INTO orders (total,customer) VALUES (:total,:customer)''] \<and>
       map (\<lambda>q. binds q '':customer'') (trace w) = [Some (ModelPtr ''Customer'' (Some 1))] \<and>
       map (\<lambda>q. binds q '':total'') (trace w) = [Some (LongLong 42)] \<and>
       map m_id (heap w) = [7, 0]"
  by (simp add: insert_model_def deref_demo isSaved_def demo_obj_simps insertQuery_def
      demo_insert_sql demo_exec demo_world_simps demo_schema_simps order_properties_def
      prepared_def bindValue_def demo_read execDML_def update_obj_def setId_def toUInt_def)

subsection \<open>The id after a statement\<close>

lemma updateQuery_Some_deref:
  "updateQuery n S D w this = Inr (Some q, w1) \<Longrightarrow> \<exists>ob1. deref w1 this = Some ob1"
  by (auto simp: updateQuery.simps split: option.splits if_splits sum.splits prod.splits)

text \<open>
  C10 does not hold of \<open>execDML\<close>: the id is overwritten after an INSERT and after
  an UPDATE alike, but with what \<open>toUInt()\<close> leaves of the value the database
  reports. Against a database that reports the row id \<open>2 ^ 32 + 7\<close>, the inserted
  customer and the updated customer 3 both end with the id 7.
\<close>

theorem lastInsertId_is_cut_to_32_bits:
  "drv_exec late_driver 0 ann_insert = (ExecOk (LongLong 4294967303) None, 0) \<and>
   drv_exec late_driver 0 customer_update = (ExecOk (LongLong 4294967303) None, 0) \<and>
   (case insert_model demo_schema late_driver (demo_world [customer_obj 0 [''name'']] 0) 0 of
      Inl e \<Rightarrow> False
    | Inr (ok, w) \<Rightarrow> ok \<and> trace w = [ann_insert] \<and> map id_of (heap w) = [7]) \<and>
   (case update 1 demo_schema late_driver (demo_world [customer_obj 3 [''name'']] 0) 0 of
      Inl e \<Rightarrow> False
    | Inr (ok, w) \<Rightarrow> ok \<and> trace w = [customer_update] \<and> map id_of (heap w) = [7]) \<and>
   (7 :: model_id_t) \<noteq> 4294967303"
proof -
  have e: "drv_exec late_driver d q = (ExecOk (LongLong 4294967303) None, d)"
    "drv_prepare late_driver d s" for d q s
    by (simp_all add: late_driver_def)
  have t: "(ucast (toUInt (LongLong 4294967303)) :: model_id_t) = 7"
    by (simp add: toUInt_def)
  have i: "insert_model demo_schema late_driver (demo_world [customer_obj 0 [''name'']] 0) 0 =
      Inr (True, \<lparr>heap = [customer_obj 7 [''name'']], db = 0, trace = [ann_insert],
                    garbage = (\<lambda>a. 0)\<rparr>)"
    by (simp add: insert_model_def deref_demo isSaved_def demo_obj_simps insertQuery_def
        demo_insert_sql e demo_world_simps demo_schema_simps customer_properties_def demo_read
        execDML_def update_obj_def setId_def t)
      (simp add: demo_world_def customer_obj_def ann_insert_def)
  have u: "update (Suc 0) demo_schema late_driver (demo_world [customer_obj 3 [''name'']] 0) 0 =
      Inr (True, \<lparr>heap = [customer_obj 7 [''name'']], db = 0, trace = [customer_update],
                    garbage = (\<lambda>a. 0)\<rparr>)"
    by (simp add: update.simps updateQuery.simps bindModified.simps deref_demo isSaved_def
        isModified_def demo_obj_simps e modifiedProperties_def demo_update_sql demo_read
        id_of_def execDML_def update_obj_def setId_def t demo_world_simps)
      (simp add: demo_world_def customer_obj_def customer_update_def)
  show ?thesis
    by (simp add: e i u id_of_def demo_obj_simps)
qed

lemma toUInt_7: "(ucast (toUInt (LongLong 7)) :: 64 word) = 7"
  by (simp add: toUInt_def)

lemma demo_updateQuery_customer:
  "updateQuery (Suc 0) demo_schema demo_driver (demo_world [customer_obj 3 [''name'']] 7) 0 =
     Inr (Some customer_update, demo_world [customer_obj 3 [''name'']] 7)"
  by (simp add: updateQuery.simps bindModified.simps deref_demo demo_obj_simps demo_exec
      modifiedProperties_def demo_update_sql demo_read id_of_def customer_update_def)

lemma sql_customer_update: "sql customer_update = ''UPDATE customers SET name = :name WHERE id = :id''"
  by (simp add: customer_update_def bindValue_def prepared_def)

subsection \<open>The set of modified names after saving\<close>

lemma demo_update_customer:
  "update (Suc 0) demo_schema demo_driver (demo_world [customer_obj 3 [''name'']] 7) 0 =
     Inr (True, customer_updated)"
  by (simp add: update.simps deref_demo isSaved_def isModified_def demo_obj_simps
      demo_updateQuery_customer execDML_def demo_world_simps demo_exec sql_customer_update
      toUInt_7 update_obj_def setId_def)
    (simp add: demo_world_def customer_updated_def customer_obj_def)

text \<open>
  C8. Neither \<open>insert\<close> nor \<open>update\<close> touches a set of modified names: after a
  successful one, every object of the heap has the set it had, the entity itself
  included, so the statement a second \<open>update\<close> builds names the same columns again.
\<close>

theorem dirty_set_survives_save:
  assumes "deref w this = Some ob"
    and "insert_model S D w this = Inr (True, w') \<or> update n S D w this = Inr (True, w')"
  shows "map modifiedProperties (heap w') = map modifiedProperties (heap w) \<and>
         (\<exists>ob'. deref w' this = Some ob' \<and> modifiedProperties ob' = modifiedProperties ob \<and>
            isModified ob' = isModified ob \<and>
            updateQuery_sql S (cls ob') (modifiedProperties ob') =
              updateQuery_sql S (cls ob) (modifiedProperties ob))"
proof -
  from assms(2) have s: "same_shape w w'"
    by (auto dest: insert_model_shape update_shape)
  have m: "modifiedProperties = m_modifiedProperties"
    by (rule ext) (simp add: modifiedProperties_def)
  from same_shape_deref [OF s assms(1)] obtain ob' where
    "deref w' this = Some ob'" "m_modifiedProperties ob' = m_modifiedProperties ob"
    "cls ob' = cls ob" by blast
  with s show ?thesis
    by (simp add: m same_shape_def isModified_def)
qed

theorem dirty_set_survives_save_witness:
  "map modifiedProperties (heap customer_updated) = [[''name'']] \<and>
   (\<exists>ob'. deref customer_updated 0 = Some ob' \<and> modifiedProperties ob' = [''name''] \<and>
      isModified ob')"
  using dirty_set_survives_save [of "demo_world [customer_obj 3 [''name'']] 7" 0
      "customer_obj 3 [''name'']" demo_schema demo_driver customer_updated 1]
  by (auto simp: deref_demo demo_update_customer demo_world_simps modifiedProperties_def
      demo_obj_simps isModified_def)

subsection \<open>The statement of an update\<close>

lemma chopLast_append: "ys \<noteq> [] \<Longrightarrow> chopLast (xs @ ys) = xs @ chopLast ys"
  by (simp add: chopLast_def butlast_append)

lemma concat_chopLast_assignments:
  "names \<noteq> [] \<Longrightarrow>
     concat (chopLast (concat (map (\<lambda>n. [n, '' = :'' @ n @ '','']) names))) = set_clause names"
proof (induction names rule: set_clause.induct)
  case 1
  then show ?case by simp
next
  case (2 n)
  show ?case by (simp add: chopLast_def)
next
  case (3 n m ns)
  define tl where "tl = concat (map (\<lambda>n. [n, '' = :'' @ n @ '','']) (m # ns))"
  have "tl \<noteq> []" by (simp add: tl_def)
  then have "chopLast ([n, '' = :'' @ n @ '',''] @ tl) = [n, '' = :'' @ n @ '',''] @ chopLast tl"
    by (rule chopLast_append)
  moreover have "concat (map (\<lambda>n. [n, '' = :'' @ n @ '','']) (n # m # ns)) =
      [n, '' = :'' @ n @ '',''] @ tl"
    by (simp add: tl_def)
  moreover have "concat (chopLast tl) = set_clause (m # ns)"
    using "3.IH" by (simp add: tl_def)
  ultimately show ?case by simp
qed

lemma updateQuery_sql_set_clause:
  assumes "names \<noteq> []"
  shows "updateQuery_sql S c names =
           ''UPDATE '' @ tableName S c @ '' SET '' @ set_clause names @ '' WHERE id = :id''"
proof -
  have ne: "concat (map (\<lambda>n. [n, '' = :'' @ n @ '','']) names) \<noteq> []"
    using assms by (cases names) simp_all
  have "chopLast ([''UPDATE '', tableName S c, '' SET ''] @
          concat (map (\<lambda>n. [n, '' = :'' @ n @ '','']) names)) =
        [''UPDATE '', tableName S c, '' SET ''] @
          chopLast (concat (map (\<lambda>n. [n, '' = :'' @ n @ '','']) names))"
    using ne by (rule chopLast_append)
  then show ?thesis
    using concat_chopLast_assignments [OF assms]
    by (simp add: updateQuery_sql_def Let_def join_def)
qed

lemma bindModified_query:
  "bindModified n S D w this q names = Inr (Some q', w') \<Longrightarrow>
     sql q' = sql q \<and> positional q' = positional q \<and>
     dom (binds q') = dom (binds q) \<union> (\<lambda>n. '':'' @ n) ` set names"
proof (induction names arbitrary: w q)
  case Nil
  then show ?case by simp
next
  case (Cons p rest)
  from Cons.prems obtain w1 v where
    step: "bindModified n S D w1 this (bindValue ('':'' @ p) v q) rest = Inr (Some q', w')"
    by (auto simp: bindModified.simps split: option.splits qvariant.splits sum.splits
        prod.splits bool.splits)
  from Cons.IH [OF step] show ?case
    by (auto simp: bindValue_def)
qed

lemma updateQuery_query:
  assumes "deref w this = Some ob" "updateQuery n S D w this = Inr (Some q, w1)"
  shows "sql q = updateQuery_sql S (cls ob) (modifiedProperties ob) \<and>
         dom (binds q) = insert '':id'' ((\<lambda>n. '':'' @ n) ` set (modifiedProperties ob))"
proof -
  from assms obtain q0 where
    "bindModified n S D w this (prepared (updateQuery_sql S (cls ob) (modifiedProperties ob)))
       (modifiedProperties ob) = Inr (Some q0, w1)"
    and q: "\<exists>i. q = bindValue '':id'' i q0"
    by (auto simp: updateQuery.simps split: option.splits if_splits sum.splits prod.splits)
  from q obtain i where "q = bindValue '':id'' i q0" ..
  then have "sql q = sql q0" "dom (binds q) = insert '':id'' (dom (binds q0))"
    by (simp_all add: bindValue_def)
  moreover have "sql q0 = updateQuery_sql S (cls ob) (modifiedProperties ob)"
    "dom (binds q0) = (\<lambda>n. '':'' @ n) ` set (modifiedProperties ob)"
    using bindModified_query [OF \<open>bindModified n S D w this
       (prepared (updateQuery_sql S (cls ob) (modifiedProperties ob)))
       (modifiedProperties ob) = Inr (Some q0, w1)\<close>]
    by (simp_all add: prepared_def)
  ultimately show ?thesis by simp
qed

text \<open>
  C5. When \<open>update\<close> on a saved, modified entity gets its statement built, that is the
  statement it executes, last of all; its SET clause assigns exactly the names that
  were in the set of modified names when \<open>update\<close> was called, each from the
  placeholder of its name, and those placeholders and \<open>:id\<close> are the ones bound.
\<close>

theorem update_writes_dirty_set:
  assumes "deref w this = Some ob" "isSaved ob" "isModified ob"
    and "updateQuery n S D w this = Inr (Some q, w1)"
  shows "\<exists>ok w'. update n S D w this = Inr (ok, w') \<and> trace w' = trace w1 @ [q] \<and>
           sql q = ''UPDATE '' @ tableName S (cls ob) @ '' SET '' @
                   set_clause (modifiedProperties ob) @ '' WHERE id = :id'' \<and>
           dom (binds q) = insert '':id'' ((\<lambda>n. '':'' @ n) ` set (modifiedProperties ob))"
proof -
  from assms(4) obtain ob1 where ob1: "deref w1 this = Some ob1"
    using updateQuery_Some_deref by blast
  obtain r db' where r: "drv_exec D (db w1) q = (r, db')" by (cases "drv_exec D (db w1) q")
  from ob1 r have "\<exists>ok w'. execDML D w1 this (Some q) = Inr (ok, w') \<and> trace w' = trace w1 @ [q]"
    by (cases r) (auto simp: execDML_def update_obj_def)
  moreover from assms(3) have "modifiedProperties ob \<noteq> []"
    by (simp add: isModified_def modifiedProperties_def)
  ultimately show ?thesis
    using assms updateQuery_query [OF assms(1,4)]
    by (auto simp: update.simps updateQuery_sql_set_clause)
qed

theorem update_writes_dirty_set_witness:
  "\<exists>ok w'. update 1 demo_schema demo_driver (demo_world [customer_obj 3 [''name'']] 7) 0 =
       Inr (ok, w') \<and> trace w' = [customer_update] \<and>
     sql customer_update = ''UPDATE customers SET name = :name WHERE id = :id'' \<and>
     dom (binds customer_update) = {'':id'', '':name''}"
  using update_writes_dirty_set [of "demo_world [customer_obj 3 [''name'']] 7" 0
      "customer_obj 3 [''name'']" 1 demo_schema demo_driver customer_update
      "demo_world [customer_obj 3 [''name'']] 7"]
  by (simp add: deref_demo isSaved_def isModified_def demo_obj_simps demo_updateQuery_customer
      demo_world_simps demo_schema_simps modifiedProperties_def)

subsection \<open>Related models of an update\<close>

lemma demo_insert_ann_fails:
  "insert_model demo_schema demo_driver (order_of_new_customer 100) (Suc 0) =
     Inr (False, (order_of_new_customer 100)\<lparr>trace := [ann_insert]\<rparr>)"
  by (simp add: insert_model_def order_of_new_customer_def deref_demo isSaved_def demo_obj_simps
      insertQuery_def demo_insert_sql demo_exec demo_world_simps demo_schema_simps
      customer_properties_def demo_read execDML_def ann_insert_def)

lemma demo_insert_ann:
  "insert_model demo_schema demo_driver (order_of_new_customer 6) (Suc 0) =
     Inr (True, new_customer_inserted)"
  by (simp add: insert_model_def order_of_new_customer_def deref_demo isSaved_def demo_obj_simps
      insertQuery_def demo_insert_sql demo_exec demo_world_simps demo_schema_simps
      customer_properties_def demo_read execDML_def query_simps update_obj_def setId_def
      toUInt_7)
    (simp add: demo_world_def new_customer_inserted_def customer_obj_def ann_insert_def)

lemma new_customer_inserted_simps:
  "deref new_customer_inserted 0 = Some (order_obj 3 [''customer''])"
  "deref new_customer_inserted (Suc 0) = Some (customer_obj 7 [''name''])"
  "db new_customer_inserted = 7"
  "deref new_customer_updated 0 = Some (order_obj 3 [''customer''])"
  "deref new_customer_updated (Suc 0) = Some (customer_obj 7 [''name''])"
  by (simp_all add: new_customer_inserted_def new_customer_updated_def deref_def)

lemma demo_update_ann:
  "update 0 demo_schema demo_driver new_customer_inserted (Suc 0) =
     Inr (True, new_customer_updated)"
  by (simp add: update.simps updateQuery.simps bindModified.simps new_customer_inserted_simps
      isSaved_def isModified_def demo_obj_simps demo_exec modifiedProperties_def
      demo_update_sql demo_read id_of_def execDML_def update_obj_def setId_def toUInt_7
      query_simps)
    (simp add: new_customer_inserted_def new_customer_updated_def ann_update_def
      customer_obj_def)

subsection \<open>Saving changes ids and adds to the trace\<close>

lemma evolves_refl [simp]: "evolves w w"
  by (simp add: evolves_def)

lemma evolves_trans: "evolves w w1 \<Longrightarrow> evolves w1 w2 \<Longrightarrow> evolves w w2"
  by (auto simp: evolves_def)

lemma evolves_setId: "evolves w (update_obj a (setId i) w)"
  by (simp add: evolves_def update_obj_def map_update_same setId_def)

lemma evolves_exec [simp]: "evolves w (w\<lparr>db := d, trace := trace w @ [q]\<rparr>)"
  by (simp add: evolves_def)

lemma evolves_length: "evolves w w' \<Longrightarrow> length (heap w') = length (heap w)"
  unfolding evolves_def by (metis length_map)

lemma evolves_trace: "evolves w w' \<Longrightarrow> \<exists>ts. trace w' = trace w @ ts"
  by (simp add: evolves_def)

lemma evolves_nth:
  assumes "evolves w w'" "a < length (heap w)"
  shows "(heap w' ! a)\<lparr>m_id := 0\<rparr> = (heap w ! a)\<lparr>m_id := 0\<rparr>"
proof -
  from assms(1) have "map (\<lambda>ob. ob\<lparr>m_id := 0\<rparr>) (heap w') ! a = map (\<lambda>ob. ob\<lparr>m_id := 0\<rparr>) (heap w) ! a"
    by (simp add: evolves_def)
  with assms(2) evolves_length [OF assms(1)] show ?thesis by simp
qed

lemma same_but_id:
  assumes "ob'\<lparr>m_id := 0\<rparr> = ob\<lparr>m_id := 0\<rparr>"
  shows "cls ob' = cls ob" "members ob' = members ob"
    "m_modifiedProperties ob' = m_modifiedProperties ob"
proof -
  have "cls (ob'\<lparr>m_id := 0\<rparr>) = cls (ob\<lparr>m_id := 0\<rparr>)"
    "members (ob'\<lparr>m_id := 0\<rparr>) = members (ob\<lparr>m_id := 0\<rparr>)"
    "m_modifiedProperties (ob'\<lparr>m_id := 0\<rparr>) = m_modifiedProperties (ob\<lparr>m_id := 0\<rparr>)"
    using assms by simp_all
  then show "cls ob' = cls ob" "members ob' = members ob"
    "m_modifiedProperties ob' = m_modifiedProperties ob"
    by simp_all
qed

lemma evolves_deref:
  assumes "evolves w w'" "deref w a = Some ob"
  shows "\<exists>ob'. deref w' a = Some ob' \<and> cls ob' = cls ob \<and> members ob' = members ob \<and>
           m_modifiedProperties ob' = m_modifiedProperties ob"
proof -
  from assms(2) have a: "a < length (heap w)" and ob: "ob = heap w ! a"
    by (auto simp: deref_def split: if_splits)
  from evolves_nth [OF assms(1) a] have "(heap w' ! a)\<lparr>m_id := 0\<rparr> = ob\<lparr>m_id := 0\<rparr>"
    by (simp add: ob)
  from same_but_id [OF this] a evolves_length [OF assms(1)] show ?thesis
    by (simp add: deref_def)
qed

lemma read_pointer_same:
  assumes "cls ob' = cls ob" "members ob' = members ob"
  shows "readProperty S ob' x = ModelPtr c r \<longleftrightarrow> readProperty S ob x = ModelPtr c r"
  using assms by (simp add: readProperty_def split: option.splits)

lemma execDML_evolves: "execDML D w this v = Inr (b, w') \<Longrightarrow> evolves w w'"
  by (auto simp: execDML_def split: option.splits reply.splits prod.splits if_splits
      intro: evolves_trans [OF evolves_exec evolves_setId])

lemma insert_model_evolves: "insert_model S D w this = Inr (b, w') \<Longrightarrow> evolves w w'"
  by (auto simp: insert_model_def split: option.splits if_splits dest: execDML_evolves)

lemma persistRelated_cases:
  assumes "persistRelated n S D w model = Inr (b, w')"
  obtains m w1 m1 where "deref w model = Some m"
    "if isSaved m then w1 = w else insert_model S D w model = Inr (True, w1)"
    "deref w1 model = Some m1"
    "if isModified m1 then \<exists>k. n = Suc k \<and> update k S D w1 model = Inr (b, w') else b \<and> w' = w1"
  | m where "deref w model = Some m" "\<not> isSaved m" "insert_model S D w model = Inr (False, w')"
    "\<not> b"
proof -
  from assms obtain m where m: "deref w model = Some m"
    by (auto simp: persistRelated.simps split: option.splits)
  define r where "r = (if \<not> isSaved m then insert_model S D w model else Inr (True, w))"
  from assms m obtain ok w1 where r: "r = Inr (ok, w1)"
    by (cases r) (auto simp: persistRelated.simps r_def split: if_splits)
  show ?thesis
  proof (cases ok)
    case False
    with assms m r have "w' = w1" "\<not> b" "\<not> isSaved m"
      by (auto simp: persistRelated.simps r_def split: if_splits)
    with r False m show ?thesis by (intro that(2) [of m]) (simp_all add: r_def)
  next
    case True
    with assms m r obtain m1 where m1: "deref w1 model = Some m1"
      by (auto simp: persistRelated.simps r_def split: option.splits if_splits)
    have s: "if isSaved m then w1 = w else insert_model S D w model = Inr (True, w1)"
      using r True by (auto simp: r_def split: if_splits)
    have "if isModified m1 then \<exists>k. n = Suc k \<and> update k S D w1 model = Inr (b, w')
          else b \<and> w' = w1"
    proof (cases "isModified m1")
      case False
      with assms m r True m1 show ?thesis
        by (auto simp: persistRelated.simps r_def split: if_splits)
    next
      case mod: True
      with assms m r True m1 show ?thesis
        by (cases n) (auto simp: persistRelated.simps r_def split: if_splits)
    qed
    with m s m1 show ?thesis by (rule that(1))
  qed
qed

lemma persistRelated_evolves:
  assumes IH: "\<And>k w this b w'. n = Suc k \<Longrightarrow> update k S D w this = Inr (b, w') \<Longrightarrow> evolves w w'"
    and run: "persistRelated n S D w model = Inr (b, w')"
  shows "evolves w w'"
  using run
proof (cases rule: persistRelated_cases)
  case (1 m w1 m1)
  from 1(2) have s1: "evolves w w1"
    by (auto split: if_splits dest: insert_model_evolves)
  from 1(4) have "evolves w1 w'"
    by (auto split: if_splits dest: IH)
  with s1 show ?thesis by (rule evolves_trans)
next
  case (2 m)
  then show ?thesis by (auto dest: insert_model_evolves)
qed

lemma bindModified_step:
  assumes "deref w this = Some ob" "readProperty S ob x = ModelPtr c (Some r)"
  shows "bindModified n S D w this q (x # rest) =
     (case persistRelated n S D w r of
        Inl e \<Rightarrow> Inl e
      | Inr (False, w1) \<Rightarrow> Inr (None, w1)
      | Inr (True, w1) \<Rightarrow>
         (case deref w1 r of
            None \<Rightarrow> Inl BadPointer
          | Some m \<Rightarrow>
              bindModified n S D w1 this (bindValue ('':'' @ x) (ULongLong (id_of m)) q) rest))"
  using assms by (simp add: bindModified.simps)

lemma bindModified_evolves_step:
  assumes IH: "\<And>k w this b w'. n = Suc k \<Longrightarrow> update k S D w this = Inr (b, w') \<Longrightarrow> evolves w w'"
  shows "bindModified n S D w this q names = Inr (v, w') \<Longrightarrow> evolves w w'"
proof (induction names arbitrary: w q)
  case Nil
  then show ?case by simp
next
  case (Cons p rest)
  from Cons.prems obtain ob where ob: "deref w this = Some ob"
    by (auto simp: bindModified.simps split: option.splits)
  show ?case
  proof (cases "readProperty S ob p")
    case (ModelPtr c x)
    with Cons.prems ob obtain model where x: "x = Some model"
      by (cases x) (auto simp: bindModified.simps)
    from Cons.prems ob ModelPtr x obtain ok w1 where pr: "persistRelated n S D w model = Inr (ok, w1)"
      by (cases "persistRelated n S D w model") (auto simp: bindModified.simps)
    from IH pr have s1: "evolves w w1" by (rule persistRelated_evolves)
    show ?thesis
    proof (cases ok)
      case False
      with Cons.prems ob ModelPtr x pr have "w' = w1" by (simp add: bindModified.simps)
      with s1 show ?thesis by simp
    next
      case True
      with Cons.prems ob ModelPtr x pr obtain m where
        "bindModified n S D w1 this (bindValue ('':'' @ p) (ULongLong (id_of m)) q) rest = Inr (v, w')"
        by (auto simp: bindModified.simps split: option.splits)
      then have "evolves w1 w'" by (rule Cons.IH)
      with s1 show ?thesis by (rule evolves_trans)
    qed
  qed (use Cons.prems ob in \<open>auto simp: bindModified.simps intro: Cons.IH\<close>)
qed

lemma updateQuery_evolves_step:
  assumes IH: "\<And>k w this b w'. n = Suc k \<Longrightarrow> update k S D w this = Inr (b, w') \<Longrightarrow> evolves w w'"
    and run: "updateQuery n S D w this = Inr (v, w')"
  shows "evolves w w'"
  using run bindModified_evolves_step [OF IH]
  by (auto simp: updateQuery.simps split: option.splits if_splits sum.splits prod.splits)

lemma update_evolves: "update n S D w this = Inr (b, w') \<Longrightarrow> evolves w w'"
proof (induction n arbitrary: w this b w')
  case 0
  have "evolves w w1" if "updateQuery 0 S D w this = Inr (v, w1)" for v w1
    using _ that by (rule updateQuery_evolves_step) simp
  with "0.prems" show ?case
    by (auto simp: update.simps split: option.splits if_splits sum.splits prod.splits
        dest!: execDML_evolves intro: evolves_trans)
next
  case (Suc n)
  have "evolves w w1" if "updateQuery (Suc n) S D w this = Inr (v, w1)" for v w1
    using _ that by (rule updateQuery_evolves_step) (simp add: Suc.IH)
  with Suc.prems show ?case
    by (auto simp: update.simps split: option.splits if_splits sum.splits prod.splits
        dest!: execDML_evolves intro: evolves_trans)
qed

lemma bindModified_evolves:
  "bindModified n S D w this q names = Inr (v, w') \<Longrightarrow> evolves w w'"
  by (rule bindModified_evolves_step) (rule update_evolves)

lemma persistRelated_evolved:
  "persistRelated n S D w model = Inr (b, w') \<Longrightarrow> evolves w w'"
  by (rule persistRelated_evolves) (rule update_evolves)

subsection \<open>The loop of \<open>updateQuery\<close>, in two parts\<close>

lemma bindModified_append:
  "bindModified n S D w this q (xs @ ys) =
     (case bindModified n S D w this q xs of
        Inl e \<Rightarrow> Inl e
      | Inr (None, w1) \<Rightarrow> Inr (None, w1)
      | Inr (Some q1, w1) \<Rightarrow> bindModified n S D w1 this q1 ys)"
proof (induction xs arbitrary: w q)
  case Nil
  show ?case by simp
next
  case (Cons x xs)
  show ?case
    by (simp add: bindModified.simps Cons.IH
        split: option.splits qvariant.splits sum.splits prod.splits bool.splits)
qed

lemma bindModified_keeps_binding:
  "bindModified n S D w this q names = Inr (Some q', w') \<Longrightarrow>
     k \<notin> (\<lambda>n. '':'' @ n) ` set names \<Longrightarrow> binds q' k = binds q k"
proof (induction names arbitrary: w q)
  case Nil
  then show ?case by simp
next
  case (Cons p rest)
  from Cons.prems(1) obtain w1 v where
    step: "bindModified n S D w1 this (bindValue ('':'' @ p) v q) rest = Inr (Some q', w')"
    by (auto simp: bindModified.simps split: option.splits qvariant.splits sum.splits
        prod.splits bool.splits)
  from Cons.IH [OF step] Cons.prems(2) show ?case
    by (auto simp: bindValue_def)
qed

subsection \<open>An update whose recursion settles returns\<close>

lemma relations_settle_iff:
  "relations_settle deeper S hp ob names \<longleftrightarrow>
     (\<forall>x\<in>set names. \<forall>c r. readProperty S ob x = ModelPtr c r \<longrightarrow>
        (\<exists>m. r = Some m \<and> m < length hp \<and> (isModified (hp ! m) \<longrightarrow> deeper m)))"
  unfolding relations_settle_def
  by (intro ball_cong refl) (auto split: qvariant.splits option.splits)

lemma settles_iff:
  "settles n S hp a \<longleftrightarrow>
     a < length hp \<and>
     relations_settle (\<lambda>m. \<exists>k. n = Suc k \<and> settles k S hp m) S hp (hp ! a)
       (m_modifiedProperties (hp ! a))"
  by (cases n) (simp_all add: relations_settle_iff)

lemma relations_settle_same:
  assumes "\<And>x c r. readProperty S ob' x = ModelPtr c r \<longleftrightarrow> readProperty S ob x = ModelPtr c r"
    and "length hp' = length hp"
    and "\<And>m. m < length hp \<Longrightarrow> isModified (hp' ! m) = isModified (hp ! m)"
    and "\<And>m. m < length hp \<Longrightarrow> deeper' m = deeper m"
  shows "relations_settle deeper' S hp' ob' names = relations_settle deeper S hp ob names"
  unfolding relations_settle_iff using assms by (simp cong: conj_cong)

lemma evolves_relations_settle:
  assumes e: "evolves w w'" and "cls ob' = cls ob" "members ob' = members ob"
    and "\<And>m. m < length (heap w) \<Longrightarrow> deeper' m = deeper m"
  shows "relations_settle deeper' S (heap w') ob' names =
           relations_settle deeper S (heap w) ob names"
proof (rule relations_settle_same)
  show "readProperty S ob' x = ModelPtr c r \<longleftrightarrow> readProperty S ob x = ModelPtr c r" for x c r
    using assms(2,3) by (rule read_pointer_same)
  show "length (heap w') = length (heap w)" using e by (rule evolves_length)
  show "isModified (heap w' ! m) = isModified (heap w ! m)" if "m < length (heap w)" for m
    using same_but_id(3) [OF evolves_nth [OF e that]] by (simp add: isModified_def)
qed (rule assms(4))

lemma settles_evolves:
  assumes "evolves w w'"
  shows "settles n S (heap w') a = settles n S (heap w) a"
proof (induction n arbitrary: a)
  case 0
  show ?case
  proof (cases "a < length (heap w)")
    case False
    with evolves_length [OF assms] show ?thesis by simp
  next
    case True
    note sb = same_but_id [OF evolves_nth [OF assms True]]
    have "relations_settle (\<lambda>m. False) S (heap w') (heap w' ! a) (m_modifiedProperties (heap w ! a)) =
        relations_settle (\<lambda>m. False) S (heap w) (heap w ! a) (m_modifiedProperties (heap w ! a))"
      using assms sb(1,2) by (rule evolves_relations_settle) simp
    with True evolves_length [OF assms] sb(3) show ?thesis by simp
  qed
next
  case (Suc n)
  show ?case
  proof (cases "a < length (heap w)")
    case False
    with evolves_length [OF assms] show ?thesis by simp
  next
    case True
    note sb = same_but_id [OF evolves_nth [OF assms True]]
    have "relations_settle (settles n S (heap w')) S (heap w') (heap w' ! a)
          (m_modifiedProperties (heap w ! a)) =
        relations_settle (settles n S (heap w)) S (heap w) (heap w ! a)
          (m_modifiedProperties (heap w ! a))"
      using assms sb(1,2) by (rule evolves_relations_settle) (rule Suc.IH)
    with True evolves_length [OF assms] sb(3) show ?thesis by simp
  qed
qed

lemma execDML_returns:
  "deref w a = Some ob \<Longrightarrow> \<exists>b w'. execDML D w a v = Inr (b, w')"
  by (auto simp: execDML_def split: option.splits reply.splits prod.splits)

lemma insert_model_returns:
  "deref w a = Some ob \<Longrightarrow> \<exists>b w'. insert_model S D w a = Inr (b, w')"
  by (auto simp: insert_model_def dest: execDML_returns)

lemma persistRelated_returns:
  assumes IH: "\<And>k w a. n = Suc k \<Longrightarrow> settles k S (heap w) a \<Longrightarrow> \<exists>b w'. update k S D w a = Inr (b, w')"
    and m: "m < length (heap w)"
    and deeper: "isModified (heap w ! m) \<longrightarrow> (\<exists>k. n = Suc k \<and> settles k S (heap w) m)"
  shows "\<exists>b w1. persistRelated n S D w m = Inr (b, w1)"
proof -
  from m have d: "deref w m = Some (heap w ! m)" by (simp add: deref_def)
  define r where "r = (if \<not> isSaved (heap w ! m) then insert_model S D w m else Inr (True, w))"
  from insert_model_returns [OF d, of S D] obtain ok w1 where r: "r = Inr (ok, w1)"
    by (cases "isSaved (heap w ! m)") (auto simp: r_def)
  then have e: "evolves w w1"
    by (auto simp: r_def split: if_splits dest: insert_model_evolves)
  from evolves_deref [OF e d] obtain m1 where m1: "deref w1 m = Some m1"
    "m_modifiedProperties m1 = m_modifiedProperties (heap w ! m)"
    by blast
  show ?thesis
  proof (cases "ok \<and> isModified m1")
    case False
    with d r m1 show ?thesis
      by (cases ok) (auto simp: persistRelated.simps r_def)
  next
    case True
    with m1(2) deeper obtain k where k: "n = Suc k" "settles k S (heap w) m"
      by (auto simp: isModified_def)
    from k(2) have "settles k S (heap w1) m" by (simp add: settles_evolves [OF e])
    from IH [OF k(1) this] obtain b w2 where "update k S D w1 m = Inr (b, w2)" by blast
    with d r m1 True k(1) show ?thesis
      by (auto simp: persistRelated.simps r_def)
  qed
qed

lemma bindModified_returns:
  assumes IH: "\<And>k w a. n = Suc k \<Longrightarrow> settles k S (heap w) a \<Longrightarrow> \<exists>b w'. update k S D w a = Inr (b, w')"
  shows "deref w this = Some ob \<Longrightarrow>
     relations_settle (\<lambda>m. \<exists>k. n = Suc k \<and> settles k S (heap w) m) S (heap w) ob names \<Longrightarrow>
     \<exists>v w'. bindModified n S D w this q names = Inr (v, w')"
proof (induction names arbitrary: w q ob)
  case Nil
  then show ?case by simp
next
  case (Cons x rest)
  from Cons.prems(2) have
    here: "\<And>c r. readProperty S ob x = ModelPtr c r \<Longrightarrow>
       \<exists>m. r = Some m \<and> m < length (heap w) \<and>
         (isModified (heap w ! m) \<longrightarrow> (\<exists>k. n = Suc k \<and> settles k S (heap w) m))"
    and rest: "relations_settle (\<lambda>m. \<exists>k. n = Suc k \<and> settles k S (heap w) m) S (heap w) ob rest"
    by (auto simp: relations_settle_iff)
  have later: "\<exists>v w'. bindModified n S D w1 this q1 rest = Inr (v, w')" if e: "evolves w w1" for w1 q1
  proof -
    from evolves_deref [OF e Cons.prems(1)] obtain ob1 where ob1: "deref w1 this = Some ob1"
      "cls ob1 = cls ob" "members ob1 = members ob"
      by blast
    have "relations_settle (\<lambda>m. \<exists>k. n = Suc k \<and> settles k S (heap w1) m) S (heap w1) ob1 rest =
        relations_settle (\<lambda>m. \<exists>k. n = Suc k \<and> settles k S (heap w) m) S (heap w) ob rest"
      using e ob1(2,3) by (rule evolves_relations_settle) (simp add: settles_evolves [OF e])
    with rest have "relations_settle (\<lambda>m. \<exists>k. n = Suc k \<and> settles k S (heap w1) m) S (heap w1) ob1 rest"
      by simp
    with ob1(1) show ?thesis by (rule Cons.IH)
  qed
  show ?case
  proof (cases "readProperty S ob x")
    case (ModelPtr c r)
    from here [OF this] obtain m where m: "r = Some m" "m < length (heap w)"
      "isModified (heap w ! m) \<longrightarrow> (\<exists>k. n = Suc k \<and> settles k S (heap w) m)"
      by blast
    from persistRelated_returns [OF IH m(2,3)] obtain b w1 where
      pr: "persistRelated n S D w m = Inr (b, w1)"
      by blast
    then have e: "evolves w w1" by (rule persistRelated_evolved)
    show ?thesis
    proof (cases b)
      case False
      with Cons.prems(1) ModelPtr m(1) pr show ?thesis
        by (simp add: bindModified_step)
    next
      case True
      from m(2) evolves_length [OF e] obtain m1 where m1: "deref w1 m = Some m1"
        by (simp add: deref_def)
      from later [OF e] obtain v w' where
        "bindModified n S D w1 this (bindValue ('':'' @ x) (ULongLong (id_of m1)) q) rest = Inr (v, w')"
        by blast
      with Cons.prems(1) ModelPtr m(1) pr True m1 show ?thesis
        by (simp add: bindModified_step)
    qed
  qed (use Cons.prems(1) later [OF evolves_refl] in \<open>simp_all add: bindModified.simps\<close>)
qed

lemma update_returns_step:
  assumes IH: "\<And>k w a. n = Suc k \<Longrightarrow> settles k S (heap w) a \<Longrightarrow> \<exists>b w'. update k S D w a = Inr (b, w')"
    and s: "settles n S (heap w) this"
  shows "\<exists>b w'. update n S D w this = Inr (b, w')"
proof -
  from s have a: "this < length (heap w)"
    and rs: "relations_settle (\<lambda>m. \<exists>k. n = Suc k \<and> settles k S (heap w) m) S (heap w)
      (heap w ! this) (m_modifiedProperties (heap w ! this))"
    using settles_iff [of n S "heap w" this] by simp_all
  let ?ob = "heap w ! this"
  from a have d: "deref w this = Some ?ob" by (simp add: deref_def)
  let ?q = "prepared (updateQuery_sql S (cls ?ob) (modifiedProperties ?ob))"
  from bindModified_returns [OF IH d rs, of ?q] obtain v w1 where
    bm: "bindModified n S D w this ?q (modifiedProperties ?ob) = Inr (v, w1)"
    by (auto simp: modifiedProperties_def)
  from evolves_deref [OF bindModified_evolves [OF bm] d] obtain ob1 where
    ob1: "deref w1 this = Some ob1" by blast
  have "\<exists>v w2. updateQuery n S D w this = Inr (v, w2) \<and> (\<exists>ob2. deref w2 this = Some ob2)"
    using d bm ob1 by (cases v) (auto simp: updateQuery.simps)
  then obtain v2 w2 ob2 where uq: "updateQuery n S D w this = Inr (v2, w2)"
    "deref w2 this = Some ob2" by blast
  from execDML_returns [OF uq(2)] obtain b w' where "execDML D w2 this v2 = Inr (b, w')" by blast
  with d uq(1) show ?thesis
    by (auto simp: update.simps)
qed

lemma update_returns:
  "settles n S (heap w) this \<Longrightarrow> \<exists>b w'. update n S D w this = Inr (b, w')"
proof (induction n arbitrary: w this)
  case 0
  show ?case by (rule update_returns_step [OF _ "0.prems"]) simp
next
  case (Suc n)
  show ?case by (rule update_returns_step [OF _ Suc.prems]) (auto intro: Suc.IH)
qed

subsection \<open>Related models of an update\<close>

lemma execDML_True:
  "execDML D w this v = Inr (True, w') \<Longrightarrow> \<exists>q. v = Some q \<and> trace w' = trace w @ [q]"
  by (auto simp: execDML_def update_obj_def split: option.splits reply.splits prod.splits
      if_splits)

lemma persistRelated_False:
  assumes "deref w r = Some m"
    and "(\<not> isSaved m \<and> insert_model S D w r = Inr (False, w2)) \<or>
         (\<exists>w1 m1 k. (if isSaved m then w1 = w else insert_model S D w r = Inr (True, w1)) \<and>
            deref w1 r = Some m1 \<and> isModified m1 \<and> n = Suc k \<and>
            update k S D w1 r = Inr (False, w2))"
  shows "persistRelated n S D w r = Inr (False, w2)"
  using assms by (auto simp: persistRelated.simps split: if_splits)

text \<open>
  C4, as the specification has it, fails where the relation leads back: the saved
  employee 3, whose \<open>manager\<close> is modified and is the employee itself, is a saved, modified
  entity with a modified relation attribute, and \<open>update\<close> on it does not return,
  whatever the fuel: it calls \<open>update\<close> on the related model, which is the same entity
  in the same state.
\<close>

theorem self_reference_counterexample:
  "isSaved (heap self_managed ! 0) \<and> isModified (heap self_managed ! 0) \<and>
   modifiedProperties (heap self_managed ! 0) = [''manager''] \<and>
   readProperty staff_schema (heap self_managed ! 0) ''manager'' = ModelPtr ''Employee'' (Some 0) \<and>
   (\<forall>n. update n staff_schema demo_driver self_managed 0 = Inl OutOfFuel)"
proof -
  have r: "readProperty staff_schema (heap self_managed ! 0) ''manager'' =
      ModelPtr ''Employee'' (Some 0)"
    by (simp add: self_managed_def demo_world_def staff_schema_def readProperty_def)
  have f: "deref self_managed 0 = Some (heap self_managed ! 0)"
    "isSaved (heap self_managed ! 0)" "isModified (heap self_managed ! 0)"
    "modifiedProperties (heap self_managed ! 0) = [''manager'']"
    by (simp_all add: self_managed_def demo_world_def deref_def isSaved_def isModified_def
        modifiedProperties_def)
  have "update n staff_schema demo_driver self_managed 0 = Inl OutOfFuel" for n
  proof (induction n)
    case 0
    show ?case
      by (simp add: update.simps updateQuery.simps bindModified.simps persistRelated.simps
          f r demo_exec)
  next
    case (Suc n)
    then show ?case
      by (simp add: update.simps updateQuery.simps bindModified.simps persistRelated.simps
          f r demo_exec)
  qed
  with r f show ?thesis
    by simp
qed

text \<open>
  C4, amended. Take a saved entity whose set of modified names holds \<open>x\<close> (after the
  names \<open>xs\<close>, before the names \<open>ys\<close>), the name of a relation attribute that points to
  the related model \<open>r\<close>. (The set has no name twice, and \<open>x\<close> is not \<open>id\<close>, which is
  final in \<open>Model\<close>.)

  \<^item> Where the descent through modified related models settles within the fuel,
    \<open>update\<close> returns.
  \<^item> When \<open>update\<close> returns true, then at the point where the loop of \<open>updateQuery\<close> had
    bound the names \<open>xs\<close>, \<open>r\<close> was inserted if it was not saved, then updated (one call
    deeper) if it was modified, both with success; the statement \<open>update\<close> executed
    last, after all of that, is its own, and it binds \<open>:x\<close> to the id \<open>r\<close> had once
    these steps were done.
  \<^item> When the insert or the update of \<open>r\<close> returns false at that point, \<open>update\<close>
    returns false in the world that step left: nothing more is executed, the
    statement of the entity itself least of all.
\<close>

theorem related_persisted_before_binding:
  assumes "deref w this = Some ob" and "isSaved ob"
    and "modifiedProperties ob = xs @ x # ys" and "distinct (modifiedProperties ob)"
    and "x \<noteq> ''id''" and "readProperty S ob x = ModelPtr c (Some r)"
  shows
    "(settles n S (heap w) this \<longrightarrow> (\<exists>ok w'. update n S D w this = Inr (ok, w'))) \<and>
     (update n S D w this = Inr (True, w') \<longrightarrow>
        (\<exists>q1 w1 m1 w1a m1a w2 m2 qs q.
           bindModified n S D w this
             (prepared (updateQuery_sql S (cls ob) (modifiedProperties ob))) xs =
             Inr (Some q1, w1) \<and>
           deref w1 r = Some m1 \<and>
           (if isSaved m1 then w1a = w1 else insert_model S D w1 r = Inr (True, w1a)) \<and>
           deref w1a r = Some m1a \<and>
           (if isModified m1a then \<exists>k. n = Suc k \<and> update k S D w1a r = Inr (True, w2)
            else w2 = w1a) \<and>
           deref w2 r = Some m2 \<and>
           trace w' = trace w2 @ qs @ [q] \<and>
           sql q = updateQuery_sql S (cls ob) (modifiedProperties ob) \<and>
           binds q ('':'' @ x) = Some (ULongLong (id_of m2)))) \<and>
     (drv_prepare D (db w) (updateQuery_sql S (cls ob) (modifiedProperties ob)) \<and>
      bindModified n S D w this
        (prepared (updateQuery_sql S (cls ob) (modifiedProperties ob))) xs = Inr (Some q1, w1) \<and>
      deref w1 r = Some m1 \<and>
      ((\<not> isSaved m1 \<and> insert_model S D w1 r = Inr (False, w2)) \<or>
       (\<exists>w1a m1a k. (if isSaved m1 then w1a = w1 else insert_model S D w1 r = Inr (True, w1a)) \<and>
          deref w1a r = Some m1a \<and> isModified m1a \<and> n = Suc k \<and>
          update k S D w1a r = Inr (False, w2))) \<longrightarrow>
        update n S D w this = Inr (False, w2))"
    (is "?returns \<and> ?success \<and> ?failure")
proof -
  let ?sql = "updateQuery_sql S (cls ob) (modifiedProperties ob)"
  let ?names = "modifiedProperties ob"
  have mod: "isModified ob"
    using assms(3) by (simp add: isModified_def modifiedProperties_def)
  have x_later: "'':'' @ x \<notin> (\<lambda>n. '':'' @ n) ` set ys"
    using assms(3,4) by auto
  have reach: "\<exists>ob1. deref w1 this = Some ob1 \<and> readProperty S ob1 x = ModelPtr c (Some r)"
    if "bindModified n S D w this (prepared ?sql) xs = Inr (v, w1)" for v w1
  proof -
    from evolves_deref [OF bindModified_evolves [OF that] assms(1)] obtain ob1 where
      ob1: "deref w1 this = Some ob1" "cls ob1 = cls ob" "members ob1 = members ob"
      by blast
    with assms(6) read_pointer_same [OF ob1(2,3)] show ?thesis by simp
  qed
  have ?returns
    by (auto dest: update_returns)
  moreover have ?success
  proof (rule impI)
    assume run: "update n S D w this = Inr (True, w')"
    with assms(1,2) mod obtain variant wq where
      uq: "updateQuery n S D w this = Inr (variant, wq)"
      and ex: "execDML D wq this variant = Inr (True, w')"
      by (auto simp: update.simps split: sum.splits prod.splits)
    from execDML_True [OF ex] obtain q where q: "variant = Some q" "trace w' = trace wq @ [q]"
      by blast
    from uq q(1) assms(1) obtain qf i where
      bm: "bindModified n S D w this (prepared ?sql) ?names = Inr (Some qf, wq)"
      and qf: "q = bindValue '':id'' i qf"
      by (auto simp: updateQuery.simps split: option.splits if_splits sum.splits prod.splits)
    from bm obtain q1 w1 where
      b1: "bindModified n S D w this (prepared ?sql) xs = Inr (Some q1, w1)"
      and b2: "bindModified n S D w1 this q1 (x # ys) = Inr (Some qf, wq)"
      by (auto simp: assms(3) bindModified_append split: sum.splits prod.splits option.splits)
    from reach [OF b1] obtain ob1 where ob1: "deref w1 this = Some ob1"
      "readProperty S ob1 x = ModelPtr c (Some r)"
      by blast
    from b2 obtain w2 m2 where
      pr: "persistRelated n S D w1 r = Inr (True, w2)" and m2: "deref w2 r = Some m2"
      and b3: "bindModified n S D w2 this (bindValue ('':'' @ x) (ULongLong (id_of m2)) q1) ys =
        Inr (Some qf, wq)"
      by (auto simp: bindModified_step [OF ob1] split: sum.splits prod.splits option.splits
          bool.splits)
    from pr obtain m1 w1a m1a where steps: "deref w1 r = Some m1"
      "if isSaved m1 then w1a = w1 else insert_model S D w1 r = Inr (True, w1a)"
      "deref w1a r = Some m1a"
      "if isModified m1a then \<exists>k. n = Suc k \<and> update k S D w1a r = Inr (True, w2) else w2 = w1a"
      by (cases rule: persistRelated_cases) (auto split: if_splits)
    from evolves_trace [OF bindModified_evolves [OF b3]] obtain qs where
      qs: "trace wq = trace w2 @ qs" by blast
    have "binds qf ('':'' @ x) = Some (ULongLong (id_of m2))"
      using bindModified_keeps_binding [OF b3 x_later] by (simp add: bindValue_def)
    with assms(5) have bound: "binds q ('':'' @ x) = Some (ULongLong (id_of m2))"
      by (simp add: qf bindValue_def)
    have "sql q = ?sql"
      using bindModified_query [OF bm] by (simp add: qf bindValue_def prepared_def)
    with b1 steps m2 q(2) qs bound
    show "\<exists>q1 w1 m1 w1a m1a w2 m2 qs q.
           bindModified n S D w this (prepared ?sql) xs = Inr (Some q1, w1) \<and>
           deref w1 r = Some m1 \<and>
           (if isSaved m1 then w1a = w1 else insert_model S D w1 r = Inr (True, w1a)) \<and>
           deref w1a r = Some m1a \<and>
           (if isModified m1a then \<exists>k. n = Suc k \<and> update k S D w1a r = Inr (True, w2)
            else w2 = w1a) \<and>
           deref w2 r = Some m2 \<and>
           trace w' = trace w2 @ qs @ [q] \<and>
           sql q = ?sql \<and>
           binds q ('':'' @ x) = Some (ULongLong (id_of m2))"
      by (intro exI [of _ q1] exI [of _ w1] exI [of _ m1] exI [of _ w1a] exI [of _ m1a]
          exI [of _ w2] exI [of _ m2] exI [of _ qs] exI [of _ q]) simp
  qed
  moreover have ?failure
  proof (rule impI)
    assume a: "drv_prepare D (db w) ?sql \<and>
      bindModified n S D w this (prepared ?sql) xs = Inr (Some q1, w1) \<and>
      deref w1 r = Some m1 \<and>
      ((\<not> isSaved m1 \<and> insert_model S D w1 r = Inr (False, w2)) \<or>
       (\<exists>w1a m1a k. (if isSaved m1 then w1a = w1 else insert_model S D w1 r = Inr (True, w1a)) \<and>
          deref w1a r = Some m1a \<and> isModified m1a \<and> n = Suc k \<and>
          update k S D w1a r = Inr (False, w2)))"
    then have b1: "bindModified n S D w this (prepared ?sql) xs = Inr (Some q1, w1)"
      and m1: "deref w1 r = Some m1" and prep: "drv_prepare D (db w) ?sql"
      by simp_all
    from a have pr: "persistRelated n S D w1 r = Inr (False, w2)"
      by (intro persistRelated_False [OF m1]) blast
    from reach [OF b1] obtain ob1 where ob1: "deref w1 this = Some ob1"
      "readProperty S ob1 x = ModelPtr c (Some r)"
      by blast
    have "bindModified n S D w1 this q1 (x # ys) = Inr (None, w2)"
      using pr by (simp add: bindModified_step [OF ob1])
    with b1 have bm: "bindModified n S D w this (prepared ?sql) ?names = Inr (None, w2)"
      by (simp add: assms(3) bindModified_append)
    from evolves_deref [OF persistRelated_evolved [OF pr] ob1(1)] obtain ob2 where
      "deref w2 this = Some ob2" by blast
    with bm prep assms(1,2) mod show "update n S D w this = Inr (False, w2)"
      by (simp add: update.simps updateQuery.simps execDML_def)
  qed
  ultimately show ?thesis by (intro conjI)
qed

lemma order_of_new_customer_simps:
  "deref (order_of_new_customer d) 0 = Some (order_obj 3 [''customer''])"
  "deref (order_of_new_customer d) (Suc 0) = Some (customer_obj 0 [''name''])"
  "db (order_of_new_customer d) = d" "trace (order_of_new_customer d) = []"
  "heap (order_of_new_customer d) = [order_obj 3 [''customer''], customer_obj 0 [''name'']]"
  by (simp_all add: order_of_new_customer_def deref_demo demo_world_simps)

lemma demo_persist_ann:
  "persistRelated (Suc 0) demo_schema demo_driver (order_of_new_customer 6) (Suc 0) =
     Inr (True, new_customer_updated)"
  by (simp add: persistRelated.simps order_of_new_customer_simps isSaved_def isModified_def
      demo_obj_simps demo_insert_ann demo_update_ann new_customer_inserted_simps)

lemma db_new_customer_updated: "db new_customer_updated = 7"
  by (simp add: new_customer_updated_def)

lemma demo_update_order:
  "\<exists>w'. update (Suc 0) demo_schema demo_driver (order_of_new_customer 6) 0 = Inr (True, w')"
  by (simp add: update.simps updateQuery.simps bindModified.simps demo_persist_ann
      order_of_new_customer_simps isSaved_def isModified_def demo_obj_simps demo_exec
      modifiedProperties_def demo_update_sql demo_read
      new_customer_inserted_simps id_of_def execDML_def query_simps db_new_customer_updated)

lemma demo_order_settles: "settles (Suc 0) demo_schema (heap (order_of_new_customer 6)) 0"
  by (simp add: order_of_new_customer_simps relations_settle_def demo_obj_simps demo_read
      isModified_def)

theorem related_persisted_before_binding_witness:
  "(\<exists>ok w'. update 1 demo_schema demo_driver (order_of_new_customer 6) 0 = Inr (ok, w')) \<and>
   (\<exists>w' qs q. update 1 demo_schema demo_driver (order_of_new_customer 6) 0 = Inr (True, w') \<and>
      trace w' = [ann_insert, ann_update] @ qs @ [q] \<and>
      sql q = ''UPDATE orders SET customer = :customer WHERE id = :id'' \<and>
      binds q '':customer'' = Some (ULongLong 7)) \<and>
   update 1 demo_schema demo_driver (order_of_new_customer 100) 0 =
     Inr (False, (order_of_new_customer 100)\<lparr>trace := [ann_insert]\<rparr>)"
proof -
  let ?sql = "''UPDATE orders SET customer = :customer WHERE id = :id''"
  have prem: "deref (order_of_new_customer d) 0 = Some (order_obj 3 [''customer''])"
    "isSaved (order_obj 3 [''customer''])"
    "modifiedProperties (order_obj 3 [''customer'']) = [] @ ''customer'' # []"
    "distinct (modifiedProperties (order_obj 3 [''customer'']))"
    "''customer'' \<noteq> ''id''"
    "readProperty demo_schema (order_obj 3 [''customer'']) ''customer'' =
       ModelPtr ''Customer'' (Some (Suc 0))" for d
    by (simp_all add: order_of_new_customer_simps isSaved_def modifiedProperties_def
        demo_obj_simps demo_read)
  have sql: "updateQuery_sql demo_schema (cls (order_obj 3 [''customer'']))
      (modifiedProperties (order_obj 3 [''customer''])) = ?sql"
    by (simp add: demo_obj_simps modifiedProperties_def demo_update_sql)
  obtain w' where run: "update (Suc 0) demo_schema demo_driver (order_of_new_customer 6) 0 =
      Inr (True, w')"
    using demo_update_order by blast
  note T6 = related_persisted_before_binding [where S = demo_schema and n = "Suc 0"
      and D = demo_driver and this = 0 and ob = "order_obj 3 [''customer'']" and xs = "[]"
      and x = "''customer''" and ys = "[]" and c = "''Customer''" and r = "Suc 0"
      and w = "order_of_new_customer 6", OF prem]
  note T100 = related_persisted_before_binding [where S = demo_schema and n = "Suc 0"
      and D = demo_driver and this = 0 and ob = "order_obj 3 [''customer'']" and xs = "[]"
      and x = "''customer''" and ys = "[]" and c = "''Customer''" and r = "Suc 0"
      and w = "order_of_new_customer 100", OF prem]
  from T6 [THEN conjunct1] demo_order_settles
  have a: "\<exists>ok w'. update (Suc 0) demo_schema demo_driver (order_of_new_customer 6) 0 = Inr (ok, w')"
    by blast
  from T6 [where w' = w', THEN conjunct2, THEN conjunct1, rule_format, OF run, unfolded sql]
  obtain q1 w1 m1 w1a m1a w2 m2 qs q where s:
    "bindModified (Suc 0) demo_schema demo_driver (order_of_new_customer 6) 0 (prepared ?sql) [] =
       Inr (Some q1, w1)"
    "deref w1 (Suc 0) = Some m1"
    "if isSaved m1 then w1a = w1
     else insert_model demo_schema demo_driver w1 (Suc 0) = Inr (True, w1a)"
    "deref w1a (Suc 0) = Some m1a"
    "if isModified m1a
     then \<exists>k. Suc 0 = Suc k \<and> update k demo_schema demo_driver w1a (Suc 0) = Inr (True, w2)
     else w2 = w1a"
    "deref w2 (Suc 0) = Some m2"
    "trace w' = trace w2 @ qs @ [q]" "sql q = ?sql"
    "binds q ('':'' @ ''customer'') = Some (ULongLong (id_of m2))"
    by blast
  from s(1) have w1: "w1 = order_of_new_customer 6" by simp
  with s(2) have m1: "m1 = customer_obj 0 [''name'']"
    by (simp add: order_of_new_customer_simps)
  with s(3) w1 have w1a: "w1a = new_customer_inserted"
    by (simp add: isSaved_def demo_obj_simps demo_insert_ann)
  with s(4) have m1a: "m1a = customer_obj 7 [''name'']"
    by (simp add: new_customer_inserted_simps)
  with s(5) w1a have w2: "w2 = new_customer_updated"
    by (simp add: isModified_def demo_obj_simps demo_update_ann)
  with s(6) have m2: "m2 = customer_obj 7 [''name'']"
    by (simp add: new_customer_inserted_simps)
  from s(7-9) w2 m2 run
  have b: "\<exists>w' qs q. update (Suc 0) demo_schema demo_driver (order_of_new_customer 6) 0 =
        Inr (True, w') \<and>
      trace w' = [ann_insert, ann_update] @ qs @ [q] \<and> sql q = ?sql \<and>
      binds q '':customer'' = Some (ULongLong 7)"
    by (auto simp: new_customer_updated_def id_of_def demo_obj_simps)
  from T100 [where ?q1.0 = "prepared ?sql" and ?w1.0 = "order_of_new_customer 100"
      and ?m1.0 = "customer_obj 0 [''name'']"
      and ?w2.0 = "(order_of_new_customer 100)\<lparr>trace := [ann_insert]\<rparr>",
      THEN conjunct2, THEN conjunct2]
  have c: "update (Suc 0) demo_schema demo_driver (order_of_new_customer 100) 0 =
      Inr (False, (order_of_new_customer 100)\<lparr>trace := [ann_insert]\<rparr>)"
    by (simp add: demo_exec order_of_new_customer_simps isSaved_def demo_obj_simps
        demo_insert_ann_fails modifiedProperties_def demo_update_sql)
  from a b c show ?thesis by simp
qed

section \<open>Loading\<close>

subsection \<open>Loading leaves the other objects alone\<close>

lemma grown_refl [simp]: "grown t w w"
  by (simp add: grown_def)

lemma grown_trans: "grown t w w1 \<Longrightarrow> grown t w1 w2 \<Longrightarrow> grown t w w2"
  by (auto simp: grown_def)

lemma grown_db_trace [simp]: "grown t w (w\<lparr>db := d, trace := tr\<rparr>)"
  by (simp add: grown_def)

lemma grown_update_obj:
  assumes "t < length (heap w) \<Longrightarrow> cls (f (heap w ! t)) = cls (heap w ! t) \<and>
             m_id (f (heap w ! t)) = m_id (heap w ! t)"
  shows "grown t w (update_obj t f w)"
  using assms by (auto simp: grown_def update_obj_def)

lemma grown_deref:
  assumes "grown t w w'" "deref w t = Some ob"
  shows "\<exists>ob'. deref w' t = Some ob' \<and> cls ob' = cls ob \<and> m_id ob' = m_id ob"
  using assms by (auto simp: grown_def deref_def split: if_splits)

lemma grown_other:
  assumes "grown t w w'" "deref w a = Some ob" "a \<noteq> t"
  shows "deref w' a = Some ob"
  using assms by (auto simp: grown_def deref_def split: if_splits)

lemma writeProperty_keeps:
  "writeProperty S p v ob = Some ob' \<Longrightarrow>
     cls ob' = cls ob \<and> m_id ob' = m_id ob \<and> dynamicProperties ob' = dynamicProperties ob"
  by (auto simp: writeProperty_def setModified_def split: if_splits option.splits)

lemma setProperty_cases:
  obtains (own) p where "find (\<lambda>p. pname p = name) (properties S (cls ob)) = Some p"
      "setProperty S name v ob = (case writeProperty S p v ob of None \<Rightarrow> ob | Some ob' \<Rightarrow> ob')"
  | (id) "setProperty S name v ob = ob"
  | (objectName) s where "setProperty S name v ob = ob\<lparr>objectName := s\<rparr>"
  | (dynamic) "lookupProperty S (cls ob) name = None"
      "setProperty S name v ob = ob\<lparr>dynamicProperties :=
                    (if v = Invalid then (dynamicProperties ob)(name := None)
                     else (dynamicProperties ob)(name \<mapsto> v))\<rparr>"
proof (cases "find (\<lambda>p. pname p = name) (properties S (cls ob))")
  case (Some p)
  then show ?thesis by (intro own [of p]) (simp_all add: setProperty_def)
next
  case None
  show ?thesis
  proof (cases "name = ''id''")
    case True
    with None show ?thesis by (intro id) (simp add: setProperty_def)
  next
    case False
    note nid = this
    show ?thesis
    proof (cases "name = ''objectName''")
      case True
      show ?thesis
      proof (cases "plainConvert S ''QString'' v")
        case None': None
        with None nid True show ?thesis by (intro id) (simp add: setProperty_def)
      next
        case (Some x)
        show ?thesis
        proof (cases x)
          case (Text s)
          with None nid True Some show ?thesis by (intro objectName [of s]) (simp add: setProperty_def)
        qed (use None nid True Some in \<open>(intro id, simp add: setProperty_def)+\<close>)
      qed
    next
      case False
      with None nid show ?thesis
        by (intro dynamic) (simp_all add: setProperty_def lookupProperty_def)
    qed
  qed
qed

lemma lookupProperty_None:
  "lookupProperty S c name = None \<Longrightarrow>
     find (\<lambda>p. pname p = name) (properties S c) = None \<and> name \<noteq> ''id'' \<and>
     name \<noteq> ''objectName''"
  by (simp add: lookupProperty_def split: option.splits if_splits)

lemma setProperty_dynamic:
  "lookupProperty S (cls ob) name = None \<Longrightarrow>
     setProperty S name v ob = ob\<lparr>dynamicProperties :=
                    (if v = Invalid then (dynamicProperties ob)(name := None)
                     else (dynamicProperties ob)(name \<mapsto> v))\<rparr>"
  by (drule lookupProperty_None) (simp add: setProperty_def)

lemma setProperty_keeps:
  "cls (setProperty S name v ob) = cls ob \<and> m_id (setProperty S name v ob) = m_id ob"
proof (cases rule: setProperty_cases [of name S ob v])
  case (own p)
  then show ?thesis by (auto split: option.splits dest: writeProperty_keeps)
qed simp_all

lemma createRelatedInstance_new:
  assumes "createRelatedInstance S w (Some p) = Inr (Some r, w1)"
  shows "\<exists>c. ptype p = TModel c \<and> constructible S c \<and> r = length (heap w) \<and>
           w1 = w\<lparr>heap := heap w @ [Model_ctor S c (garbage w (length (heap w)))]\<rparr>"
  using assms by (auto simp: createRelatedInstance_def split: ptype.splits if_splits)

lemma grown_after_new:
  assumes "heap w1 = heap w @ [x]" "grown (length (heap w)) w1 w2"
  shows "grown t w w2"
  using assms by (auto simp: grown_def nth_append)

lemma resolveRelated_grown:
  assumes IH: "\<And>k w this i e b w'. n = Suc k \<Longrightarrow> load k S D w this i e = Inr (b, w') \<Longrightarrow> grown this w w'"
    and run: "resolveRelated n S D w this row e p = Inr (v, w')"
  shows "grown this w w'"
proof (cases "isPropertyModel p \<and> isLongLong (row_value row (pname p))")
  case False
  with run show ?thesis by (auto simp: resolveRelated.simps)
next
  case rel: True
  show ?thesis
  proof (cases e)
    case False
    with run rel have "w' = update_obj this (setProperty S (pname p @ ''Id'') (row_value row (pname p))) w"
      by (auto simp: resolveRelated.simps)
    then show ?thesis by (simp add: grown_update_obj setProperty_keeps)
  next
    case True
    with run rel obtain r w1 where cr: "createRelatedInstance S w (Some p) = Inr (Some r, w1)"
      by (auto simp: resolveRelated.simps split: sum.splits prod.splits option.splits)
    from createRelatedInstance_new [OF cr] obtain c where
      r: "r = length (heap w)" and w1: "heap w1 = heap w @ [Model_ctor S c (garbage w (length (heap w)))]"
      by auto
    from run rel True cr obtain k b where k: "n = Suc k"
      and ld: "load k S D w1 r (ucast (toUInt (row_value row (pname p)))) e = Inr (b, w')"
      by (cases n) (auto simp: resolveRelated.simps split: sum.splits prod.splits bool.splits)
    from IH [OF k ld] have "grown (length (heap w)) w1 w'" by (simp add: r)
    with w1 show ?thesis by (rule grown_after_new)
  qed
qed

lemma loadProperties_grown:
  assumes IH: "\<And>k w this i e b w'. n = Suc k \<Longrightarrow> load k S D w this i e = Inr (b, w') \<Longrightarrow> grown this w w'"
  shows "loadProperties n S D w this row e ps = Inr (b, w') \<Longrightarrow> grown this w w'"
proof (induction ps arbitrary: w)
  case Nil
  then show ?case by simp
next
  case (Cons p rest)
  from Cons.prems obtain v w1 where rr: "resolveRelated n S D w this row e p = Inr (v, w1)"
    by (cases "resolveRelated n S D w this row e p") (auto simp: loadProperties.simps)
  from IH rr have g1: "grown this w w1" by (rule resolveRelated_grown)
  from Cons.prems rr obtain ob where ob: "deref w1 this = Some ob"
    by (auto simp: loadProperties.simps split: option.splits)
  show ?case
  proof (cases "writeProperty S p v ob")
    case None
    with Cons.prems rr ob have "w' = w1 \<or> loadProperties n S D w1 this row e rest = Inr (b, w')"
      by (auto simp: loadProperties.simps split: if_splits)
    with g1 Cons.IH show ?thesis by (auto intro: grown_trans)
  next
    case (Some ob')
    with Cons.prems rr ob have
      "loadProperties n S D (update_obj this (\<lambda>_. ob') w1) this row e rest = Inr (b, w')"
      by (simp add: loadProperties.simps)
    then have "grown this (update_obj this (\<lambda>_. ob') w1) w'" by (rule Cons.IH)
    moreover from ob Some have "grown this w1 (update_obj this (\<lambda>_. ob') w1)"
      by (intro grown_update_obj) (auto simp: deref_def dest: writeProperty_keeps split: if_splits)
    ultimately show ?thesis using g1 by (blast intro: grown_trans)
  qed
qed

lemma load_cases:
  assumes "load n S D w this i e = Inr (b, w')"
  shows "w' = w \<or> (\<exists>d t. w' = w\<lparr>db := d, trace := t\<rparr>) \<or>
         (\<exists>d t row ps. loadProperties n S D (w\<lparr>db := d, trace := t\<rparr>) this row e ps = Inr (b, w'))"
  using assms
  by (auto simp: load.simps split: option.splits if_splits prod.splits reply.splits)

lemma load_grown_step:
  assumes lp: "\<And>w0 w1 row ps. loadProperties n S D w0 this row e ps = Inr (b, w1) \<Longrightarrow> grown this w0 w1"
    and run: "load n S D w this i e = Inr (b, w')"
  shows "grown this w w'"
proof -
  from load_cases [OF run] consider "w' = w" | d t where "w' = w\<lparr>db := d, trace := t\<rparr>"
    | d t row ps where "loadProperties n S D (w\<lparr>db := d, trace := t\<rparr>) this row e ps = Inr (b, w')"
    by blast
  then show ?thesis
  proof cases
    case 1
    then show ?thesis by simp
  next
    case 2
    then show ?thesis by simp
  next
    case 3
    then have "grown this (w\<lparr>db := d, trace := t\<rparr>) w'" by (rule lp)
    with grown_db_trace show ?thesis by (rule grown_trans)
  qed
qed

lemma load_grown: "load n S D w this i e = Inr (b, w') \<Longrightarrow> grown this w w'"
proof (induction n arbitrary: w this i e b w')
  case 0
  show ?case
  proof (rule load_grown_step [OF _ "0.prems"])
    show "grown this w0 w1" if "loadProperties 0 S D w0 this row e ps = Inr (b, w1)" for w0 w1 row ps
      using _ that by (rule loadProperties_grown) simp
  qed
next
  case (Suc n)
  show ?case
  proof (rule load_grown_step [OF _ Suc.prems])
    show "grown this w0 w1" if "loadProperties (Suc n) S D w0 this row e ps = Inr (b, w1)"
      for w0 w1 row ps
      using _ that by (rule loadProperties_grown) (simp add: Suc.IH)
  qed
qed


lemma resolveRelated_is_grown:
  "resolveRelated n S D w this row e p = Inr (v, w') \<Longrightarrow> grown this w w'"
  by (rule resolveRelated_grown) (rule load_grown)

subsection \<open>A lazy load, round by round\<close>

lemma update_obj_deref:
  "deref w t = Some ob \<Longrightarrow> deref (update_obj t f w) t = Some (f ob)"
  by (auto simp: deref_def update_obj_def split: if_splits)

lemma update_obj_twice: "update_obj t (\<lambda>_. y) (update_obj t (\<lambda>_. x) w) = update_obj t (\<lambda>_. y) w"
  by (simp add: update_obj_def)

lemma update_obj_const: "deref w t = Some ob \<Longrightarrow> update_obj t f w = update_obj t (\<lambda>_. f ob) w"
  by (auto simp: deref_def update_obj_def split: if_splits)

lemma update_obj_same: "deref w t = Some ob \<Longrightarrow> update_obj t (\<lambda>_. ob) w = w"
  by (auto simp: deref_def update_obj_def split: if_splits)

lemma loadProperties_lazy:
  assumes "deref w this = Some ob"
  shows "loadProperties n S D w this row False ps =
           Inr (True, update_obj this (\<lambda>_. foldl (lazy_round S row) ob ps) w)"
  using assms
proof (induction ps arbitrary: w ob)
  case Nil
  then show ?case by (simp add: update_obj_same)
next
  case (Cons p rest)
  define v where "v = row_value row (pname p)"
  define w1 where "w1 = (if isPropertyModel p \<and> isLongLong v
     then update_obj this (setProperty S (pname p @ ''Id'') v) w else w)"
  define ob1 where "ob1 = (if isPropertyModel p \<and> isLongLong v
     then setProperty S (pname p @ ''Id'') v ob else ob)"
  have rr: "resolveRelated n S D w this row False p = Inr (v, w1)"
    by (simp add: resolveRelated.simps v_def w1_def)
  have d1: "deref w1 this = Some ob1"
    using Cons.prems by (simp add: w1_def ob1_def update_obj_deref)
  have w1: "w1 = update_obj this (\<lambda>_. ob1) w"
    using update_obj_const [OF Cons.prems, of "setProperty S (pname p @ ''Id'') v"]
      update_obj_same [OF Cons.prems]
    by (simp add: w1_def ob1_def)
  have round: "lazy_round S row ob p =
      (case writeProperty S p v ob1 of None \<Rightarrow> ob1 | Some ob' \<Rightarrow> ob')"
    unfolding lazy_round_def Let_def ob1_def v_def by (rule refl)
  show ?case
  proof (cases "writeProperty S p v ob1")
    case None
    then have "lazy_round S row ob p = ob1"
      by (simp add: round)
    moreover have "loadProperties n S D w this row False (p # rest) =
        loadProperties n S D w1 this row False rest"
      using rr d1 None by (simp add: loadProperties.simps)
    ultimately show ?thesis
      using Cons.IH [OF d1] by (simp add: w1 update_obj_twice)
  next
    case (Some ob')
    then have lr: "lazy_round S row ob p = ob'"
      by (simp add: round)
    have d2: "deref (update_obj this (\<lambda>_. ob') w1) this = Some ob'"
      using d1 by (simp add: update_obj_deref)
    have "loadProperties n S D w this row False (p # rest) =
        loadProperties n S D (update_obj this (\<lambda>_. ob') w1) this row False rest"
      using rr d1 Some by (simp add: loadProperties.simps)
    then show ?thesis
      using Cons.IH [OF d2] lr by (simp add: w1 update_obj_twice)
  qed
qed

lemma load_lazy:
  assumes "deref w this = Some ob"
    and "drv_prepare D (db w) (selectQuery_sql S (cls ob))"
    and "drv_exec D (db w) (bindValue '':id'' (ULongLong ident)
           (prepared (selectQuery_sql S (cls ob)))) = (ExecOk lid (Some row), db')"
  shows "load n S D w this ident False =
           Inr (True, update_obj this (\<lambda>_. foldl (lazy_round S row) ob (properties S (cls ob)))
             (w\<lparr>db := db', trace := trace w @
                [bindValue '':id'' (ULongLong ident) (prepared (selectQuery_sql S (cls ob)))]\<rparr>))"
proof -
  have "deref (w\<lparr>db := db', trace := trace w @
      [bindValue '':id'' (ULongLong ident) (prepared (selectQuery_sql S (cls ob)))]\<rparr>) this = Some ob"
    using assms(1) by (auto simp: deref_def split: if_splits)
  from loadProperties_lazy [OF this] assms show ?thesis
    by (simp add: load.simps)
qed

subsection \<open>The side-key and the relation attribute in a lazy load\<close>

lemma lazy_round_cls [simp]: "cls (lazy_round S row ob q) = cls ob"
  by (auto simp: lazy_round_def Let_def setProperty_keeps split: option.splits
      dest!: writeProperty_keeps)

lemma foldl_lazy_round_cls [simp]: "cls (foldl (lazy_round S row) ob ps) = cls ob"
  by (induction ps arbitrary: ob) simp_all

lemma isLongLongE: "isLongLong v \<Longrightarrow> \<exists>x. v = LongLong x"
  by (cases v) (simp_all add: isLongLong_def)

lemma write_LongLong_to_relation:
  "ptype p = TModel c \<Longrightarrow> writeProperty S p (LongLong x) ob = None"
  by (simp add: writeProperty_def convert_def)

lemma writeProperty_members:
  "writeProperty S q v ob = Some ob' \<Longrightarrow> pname q \<noteq> nm \<Longrightarrow> members ob' nm = members ob nm"
  by (auto simp: writeProperty_def setModified_def split: if_splits option.splits)

lemma find_pname_unique:
  assumes "distinct (map pname ps)" "p \<in> set ps"
  shows "find (\<lambda>x. pname x = pname p) ps = Some p"
  using assms by (induction ps) force+

lemma same_name_same_property:
  assumes "distinct (map pname ps)" "p \<in> set ps" "q \<in> set ps" "pname q = pname p"
  shows "q = p"
  using assms by (meson distinct_map inj_onD)

lemma setProperty_LongLong_members:
  assumes "distinct (map pname (properties S (cls ob)))" "p \<in> set (properties S (cls ob))"
    and "ptype p = TModel c"
  shows "members (setProperty S name (LongLong x) ob) (pname p) = members ob (pname p)"
proof (cases rule: setProperty_cases [of name S ob "LongLong x"])
  case (own p')
  show ?thesis
  proof (cases "name = pname p")
    case True
    with assms(1,2) own(1) have "p' = p"
      by (simp add: find_pname_unique)
    with own(2) assms(3) show ?thesis
      by (simp add: write_LongLong_to_relation)
  next
    case False
    from own(1) have "pname p' = name"
      by (auto dest: find_Some_iff [THEN iffD1])
    with False own(2) show ?thesis
      by (auto split: option.splits dest: writeProperty_members)
  qed
qed simp_all

lemma lazy_round_relation_member:
  assumes "distinct (map pname (properties S (cls ob)))" "p \<in> set (properties S (cls ob))"
    and "ptype p = TModel c" "q \<in> set (properties S (cls ob))"
    and "row_value row (pname p) = LongLong fk"
  shows "members (lazy_round S row ob q) (pname p) = members ob (pname p)"
proof -
  define v where "v = row_value row (pname q)"
  define ob1 where "ob1 = (if isPropertyModel q \<and> isLongLong v
     then setProperty S (pname q @ ''Id'') v ob else ob)"
  have round: "lazy_round S row ob q =
      (case writeProperty S q v ob1 of None \<Rightarrow> ob1 | Some ob' \<Rightarrow> ob')"
    unfolding lazy_round_def Let_def ob1_def v_def by (rule refl)
  have m1: "members ob1 (pname p) = members ob (pname p)"
    using assms(1-3) by (auto simp: ob1_def dest!: isLongLongE intro: setProperty_LongLong_members)
  show ?thesis
  proof (cases "writeProperty S q v ob1")
    case None
    with m1 show ?thesis by (simp add: round)
  next
    case (Some ob')
    have "pname q \<noteq> pname p"
    proof
      assume "pname q = pname p"
      with assms(1,2,4) have "q = p" by (rule same_name_same_property)
      with Some assms(3,5) show False
        by (simp add: v_def write_LongLong_to_relation)
    qed
    with Some m1 show ?thesis
      by (simp add: round writeProperty_members)
  qed
qed

lemma setProperty_other_key:
  "key \<noteq> name \<Longrightarrow>
     dynamicProperties (setProperty S name v ob) key = dynamicProperties ob key"
proof (cases rule: setProperty_cases [of name S ob v])
  case (own p)
  then show ?thesis by (auto split: option.splits dest: writeProperty_keeps)
qed simp_all

lemma lazy_round_other_key:
  assumes "pname q \<noteq> pname p"
  shows "dynamicProperties (lazy_round S row ob q) (pname p @ ''Id'') =
           dynamicProperties ob (pname p @ ''Id'')"
  using assms
  by (auto simp: lazy_round_def Let_def setProperty_other_key split: option.splits
      dest!: writeProperty_keeps)

lemma lazy_round_side_key:
  assumes "ptype p = TModel c" "row_value row (pname p) = LongLong fk"
    and "lookupProperty S (cls ob) (pname p @ ''Id'') = None"
  shows "dynamicProperties (lazy_round S row ob p) (pname p @ ''Id'') = Some (LongLong fk)"
  using assms
  by (simp add: lazy_round_def Let_def isPropertyModel_def isLongLong_def
      write_LongLong_to_relation setProperty_dynamic)

lemma foldl_lazy_round_relation:
  assumes "distinct (map pname (properties S c0))" "p \<in> set (properties S c0)"
    and "ptype p = TModel c" "row_value row (pname p) = LongLong fk"
    and "lookupProperty S c0 (pname p @ ''Id'') = None"
  shows "cls ob = c0 \<Longrightarrow> set ps \<subseteq> set (properties S c0) \<Longrightarrow> distinct (map pname ps) \<Longrightarrow>
     members (foldl (lazy_round S row) ob ps) (pname p) = members ob (pname p) \<and>
     dynamicProperties (foldl (lazy_round S row) ob ps) (pname p @ ''Id'') =
       (if p \<in> set ps then Some (LongLong fk) else dynamicProperties ob (pname p @ ''Id''))"
proof (induction ps arbitrary: ob)
  case Nil
  then show ?case by simp
next
  case (Cons q rest)
  from Cons.prems have q: "q \<in> set (properties S (cls ob))" and c: "cls (lazy_round S row ob q) = c0"
    by simp_all
  from Cons.prems have IH: "members (foldl (lazy_round S row) (lazy_round S row ob q) rest) (pname p) =
      members (lazy_round S row ob q) (pname p) \<and>
     dynamicProperties (foldl (lazy_round S row) (lazy_round S row ob q) rest) (pname p @ ''Id'') =
       (if p \<in> set rest then Some (LongLong fk)
        else dynamicProperties (lazy_round S row ob q) (pname p @ ''Id''))"
    by (intro Cons.IH) simp_all
  have m: "members (lazy_round S row ob q) (pname p) = members ob (pname p)"
    using assms(1-4) q Cons.prems(1) by (intro lazy_round_relation_member [where c = c and fk = fk]) simp_all
  show ?case
  proof (cases "q = p")
    case True
    with assms(3-5) Cons.prems(1)
    have "dynamicProperties (lazy_round S row ob q) (pname p @ ''Id'') = Some (LongLong fk)"
      by (simp add: lazy_round_side_key)
    with IH m True show ?thesis by simp
  next
    case False
    have "pname q \<noteq> pname p"
      using same_name_same_property [OF assms(1,2)] q Cons.prems(1) False by auto
    then have "dynamicProperties (lazy_round S row ob q) (pname p @ ''Id'') =
        dynamicProperties ob (pname p @ ''Id'')"
      by (rule lazy_round_other_key)
    with IH m False show ?thesis by simp
  qed
qed

subsection \<open>Lazy loading and \<open>loadRelated\<close>\<close>

lemma lookup_declared:
  assumes "distinct (map pname (properties S c0))" "p \<in> set (properties S c0)"
  shows "lookupProperty S c0 (pname p) = Some p"
  using assms by (simp add: lookupProperty_def find_pname_unique)

lemma loadRelated_unfold:
  assumes ob: "deref w this = Some ob"
    and dist: "distinct (map pname (properties S (cls ob)))"
    and p: "p \<in> set (properties S (cls ob))" "ptype p = TModel c"
    and key: "lookupProperty S (cls ob) (pname p @ ''Id'') = None"
      "dynamicProperties ob (pname p @ ''Id'') = Some v"
    and c: "constructible S c"
    and ld: "load n S D (w\<lparr>heap := heap w @ [Model_ctor S c (garbage w (length (heap w)))]\<rparr>)
               (length (heap w)) (ucast (toUInt v)) e = Inr (ok, w2)"
  shows "deref w2 this = Some ob"
    and "\<exists>obr. deref w2 (length (heap w)) = Some obr \<and> cls obr = c"
    and "loadRelated n S D w this (pname p) e =
           (if ok then Inr (True, update_obj this
                 (\<lambda>ob2. case writeProperty S p (ModelPtr c (Some (length (heap w)))) ob2 of
                          None \<Rightarrow> ob2 | Some ob' \<Rightarrow> ob') w2)
            else Inr (False, w2))"
proof -
  let ?w1 = "w\<lparr>heap := heap w @ [Model_ctor S c (garbage w (length (heap w)))]\<rparr>"
  let ?r = "length (heap w)"
  have g: "grown ?r ?w1 w2" using ld by (rule load_grown)
  have d1: "deref ?w1 this = Some ob" "deref ?w1 ?r = Some (Model_ctor S c (garbage w ?r))"
    using ob by (auto simp: deref_def nth_append split: if_splits)
  have ne: "this \<noteq> ?r" using ob by (auto simp: deref_def split: if_splits)
  from grown_other [OF g d1(1) ne] show this2: "deref w2 this = Some ob" .
  from grown_deref [OF g d1(2)] show r2: "\<exists>obr. deref w2 ?r = Some obr \<and> cls obr = c"
    by (auto simp: Model_ctor_def)
  then have fv: "fromValue w2 ?r = ModelPtr c (Some ?r)"
    by (auto simp: fromValue_def)
  have cr: "createRelatedInstance S w (lookupProperty S (cls ob) (pname p)) = Inr (Some ?r, ?w1)"
    using dist p c by (simp add: lookup_declared createRelatedInstance_def)
  have gp: "getProperty S ob (pname p @ ''Id'') = v"
    using key by (simp add: getProperty_def)
  show "loadRelated n S D w this (pname p) e =
           (if ok then Inr (True, update_obj this
                 (\<lambda>ob2. case writeProperty S p (ModelPtr c (Some (length (heap w)))) ob2 of
                          None \<Rightarrow> ob2 | Some ob' \<Rightarrow> ob') w2)
            else Inr (False, w2))"
    using ob key(2) cr gp ld fv lookup_declared [OF dist p(1)]
    by (simp add: loadRelated_def domIff)
qed

lemma load_lazy_returns:
  assumes "deref w this = Some ob"
  shows "\<exists>ok w'. load n S D w this ident False = Inr (ok, w')"
proof (cases "drv_prepare D (db w) (selectQuery_sql S (cls ob))")
  case False
  with assms show ?thesis by (auto simp: load.simps)
next
  case True
  obtain r db' where r: "drv_exec D (db w) (bindValue '':id'' (ULongLong ident)
      (prepared (selectQuery_sql S (cls ob)))) = (r, db')"
    by (cases "drv_exec D (db w) (bindValue '':id'' (ULongLong ident)
      (prepared (selectQuery_sql S (cls ob))))")
  show ?thesis
  proof (cases r)
    case ExecError
    with assms True r show ?thesis by (auto simp: load.simps)
  next
    case (ExecOk lid row)
    show ?thesis
    proof (cases row)
      case None
      with assms True r ExecOk show ?thesis by (auto simp: load.simps)
    next
      case (Some row')
      with assms True r ExecOk show ?thesis by (auto simp: load_lazy)
    qed
  qed
qed

lemma toUInt_in_range:
  "0 \<le> k \<Longrightarrow> k < 2 ^ 32 \<Longrightarrow> ucast (toUInt (LongLong k)) = (word_of_int k :: model_id_t)"
  by (simp add: toUInt_def unsigned_of_int take_bit_int_eq_self)

text \<open>
  C7, as the specification has it, fails in three ways, each shown on a lazy load of an
  order from a driver that answers with the row given (the related customer is loaded
  lazily too). Where the column \<open>customer\<close> holds an unsigned integer, no side-key is
  stored, the attribute stays the null pointer and \<open>loadRelated\<close> returns false. Where
  the class declares a property \<open>customerId\<close> of its own, the key is written to that
  property, there is no dynamic side-key, and \<open>loadRelated\<close> returns false. Where
  \<open>customer\<close> has no WRITE accessor, the side-key is stored and \<open>loadRelated\<close> returns
  true, but the attribute is still the null pointer.
\<close>

theorem side_key_counterexample:
  "(case load 1 demo_schema (row_driver [''total'' \<mapsto> LongLong 42, ''customer'' \<mapsto> ULongLong 7])
          fresh_order 0 5 False of
      Inl e \<Rightarrow> False
    | Inr (ok, w) \<Rightarrow> ok \<and>
        dynamicProperties (heap w ! 0) ''customerId'' = None \<and>
        members (heap w ! 0) ''customer'' = ModelPtr ''Customer'' None \<and>
        loadRelated 1 demo_schema
          (row_driver [''total'' \<mapsto> LongLong 42, ''customer'' \<mapsto> ULongLong 7])
          w 0 ''customer'' False = Inr (False, w)) \<and>
   (case load 1 keyed_schema (row_driver [''total'' \<mapsto> LongLong 42, ''customer'' \<mapsto> LongLong 7])
          fresh_order 0 5 False of
      Inl e \<Rightarrow> False
    | Inr (ok, w) \<Rightarrow> ok \<and>
        dynamicProperties (heap w ! 0) ''customerId'' = None \<and>
        members (heap w ! 0) ''customerId'' = LongLong 7 \<and>
        members (heap w ! 0) ''customer'' = ModelPtr ''Customer'' None \<and>
        loadRelated 1 keyed_schema
          (row_driver [''total'' \<mapsto> LongLong 42, ''customer'' \<mapsto> LongLong 7])
          w 0 ''customer'' False = Inr (False, w)) \<and>
   (case load 1 readonly_schema (row_driver [''total'' \<mapsto> LongLong 42, ''customer'' \<mapsto> LongLong 7])
          fresh_order 0 5 False of
      Inl e \<Rightarrow> False
    | Inr (ok, w) \<Rightarrow> ok \<and>
        dynamicProperties (heap w ! 0) ''customerId'' = Some (LongLong 7) \<and>
        (case loadRelated 1 readonly_schema
                (row_driver [''total'' \<mapsto> LongLong 42, ''customer'' \<mapsto> LongLong 7])
                w 0 ''customer'' False of
           Inl e \<Rightarrow> False
         | Inr (ok3, w3) \<Rightarrow> ok3 \<and> length (heap w3) = 2 \<and> cls (heap w3 ! 1) = ''Customer'' \<and>
             members (heap w3 ! 0) ''customer'' = ModelPtr ''Customer'' None))"
proof -
  have s: "properties keyed_schema ''Order'' = order_properties @
          [\<lparr>pname = ''customerId'', ptype = TPlain ''qlonglong'', pwritable = True\<rparr>]"
    "properties readonly_schema ''Order'' =
       [\<lparr>pname = ''total'', ptype = TPlain ''qlonglong'', pwritable = True\<rparr>,
        \<lparr>pname = ''customer'', ptype = TModel ''Customer'', pwritable = False\<rparr>]"
    "properties keyed_schema ''Customer'' = customer_properties"
    "properties readonly_schema ''Customer'' = customer_properties"
    "tableName keyed_schema = tableName demo_schema"
    "tableName readonly_schema = tableName demo_schema"
    "plainConvert keyed_schema = plainConvert demo_schema"
    "plainConvert readonly_schema = plainConvert demo_schema"
    "initial readonly_schema = initial demo_schema"
    "constructible readonly_schema = constructible demo_schema"
    "plainConvert demo_schema k Invalid = None" for k
    by (simp_all add: keyed_schema_def readonly_schema_def demo_schema_def)
  have d: "drv_prepare (row_driver row) x y" "drv_exec (row_driver row) x q = (ExecOk Invalid (Some row), x)"
    for row x y q
    by (simp_all add: row_driver_def)
  note defs = load.simps loadProperties.simps resolveRelated.simps loadRelated_def
    fresh_order_def demo_world_def Model_ctor_def d s demo_schema_simps order_properties_def
    customer_properties_def isPropertyModel_def isLongLong_def row_value_def writeProperty_def
    convert_def createRelatedInstance_def deref_def update_obj_def fromValue_def
    setModified_def setProperty_def lookupProperty_def getProperty_def toUInt_def
  have a: "case load 1 demo_schema (row_driver [''total'' \<mapsto> LongLong 42, ''customer'' \<mapsto> ULongLong 7])
          fresh_order 0 5 False of
      Inl e \<Rightarrow> False
    | Inr (ok, w) \<Rightarrow> ok \<and>
        dynamicProperties (heap w ! 0) ''customerId'' = None \<and>
        members (heap w ! 0) ''customer'' = ModelPtr ''Customer'' None \<and>
        loadRelated 1 demo_schema
          (row_driver [''total'' \<mapsto> LongLong 42, ''customer'' \<mapsto> ULongLong 7])
          w 0 ''customer'' False = Inr (False, w)"
    by (simp add: defs)
  have b: "case load 1 keyed_schema (row_driver [''total'' \<mapsto> LongLong 42, ''customer'' \<mapsto> LongLong 7])
          fresh_order 0 5 False of
      Inl e \<Rightarrow> False
    | Inr (ok, w) \<Rightarrow> ok \<and>
        dynamicProperties (heap w ! 0) ''customerId'' = None \<and>
        members (heap w ! 0) ''customerId'' = LongLong 7 \<and>
        members (heap w ! 0) ''customer'' = ModelPtr ''Customer'' None \<and>
        loadRelated 1 keyed_schema
          (row_driver [''total'' \<mapsto> LongLong 42, ''customer'' \<mapsto> LongLong 7])
          w 0 ''customer'' False = Inr (False, w)"
    by (simp add: defs)
  have c: "case load 1 readonly_schema (row_driver [''total'' \<mapsto> LongLong 42, ''customer'' \<mapsto> LongLong 7])
          fresh_order 0 5 False of
      Inl e \<Rightarrow> False
    | Inr (ok, w) \<Rightarrow> ok \<and>
        dynamicProperties (heap w ! 0) ''customerId'' = Some (LongLong 7) \<and>
        (case loadRelated 1 readonly_schema
                (row_driver [''total'' \<mapsto> LongLong 42, ''customer'' \<mapsto> LongLong 7])
                w 0 ''customer'' False of
           Inl e \<Rightarrow> False
         | Inr (ok3, w3) \<Rightarrow> ok3 \<and> length (heap w3) = 2 \<and> cls (heap w3 ! 1) = ''Customer'' \<and>
             members (heap w3 ! 0) ''customer'' = ModelPtr ''Customer'' None)"
    by (simp add: defs)
  from a b c show ?thesis by (intro conjI)
qed

text \<open>
  C7, amended. Take a relation attribute \<open>p\<close> with a WRITE accessor, of an entity whose
  properties have distinct names, none of them the side-key \<open>"<name>Id"\<close>, and whose
  related class \<open>newInstance()\<close> can construct. A lazy load of a row whose column of
  \<open>p\<close> holds a signed 64-bit integer leaves that integer as the dynamic property
  \<open>"<name>Id"\<close> and the attribute as it was. \<open>loadRelated\<close> of a name without side-key
  returns false and changes nothing. With the side-key, holding a key from 0 to
  \<open>2 ^ 32 - 1\<close>, \<open>loadRelated\<close> is the load of a new instance of the related class by
  that key: a fault of that load is its fault; if that load returns false it returns
  false in the world that load left; if it returns true, it returns true, and the
  entity is as it was but for the pointer to the new instance in the attribute, which
  is now in the set of modified names. Whatever the load returns, it leaves the entity
  with its side-key as it was and the new instance in the related class. With
  \<open>eagerLoad\<close> false, \<open>loadRelated\<close> always returns.
\<close>

theorem lazy_relation_then_loadRelated:
  assumes "deref w this = Some ob"
    and "distinct (map pname (properties S (cls ob)))"
    and "p \<in> set (properties S (cls ob))" and "ptype p = TModel c" and "pwritable p"
    and "lookupProperty S (cls ob) (pname p @ ''Id'') = None"
    and "constructible S c" and "0 \<le> fk" and "fk < 2 ^ 32"
  shows
    "(drv_prepare D (db w) (selectQuery_sql S (cls ob)) \<and>
      drv_exec D (db w) (bindValue '':id'' (ULongLong ident)
        (prepared (selectQuery_sql S (cls ob)))) = (ExecOk lid (Some row), db') \<and>
      row (pname p) = Some (LongLong fk) \<longrightarrow>
        (\<exists>w' ob'. load n S D w this ident False = Inr (True, w') \<and> deref w' this = Some ob' \<and>
           dynamicProperties ob' (pname p @ ''Id'') = Some (LongLong fk) \<and>
           members ob' (pname p) = members ob (pname p))) \<and>
     (dynamicProperties ob (name @ ''Id'') = None \<longrightarrow>
        loadRelated n S D w this name e = Inr (False, w)) \<and>
     (dynamicProperties ob (pname p @ ''Id'') = Some (LongLong fk) \<longrightarrow>
        loadRelated n S D w this (pname p) e =
          (case load n S D (w\<lparr>heap := heap w @ [Model_ctor S c (garbage w (length (heap w)))]\<rparr>)
                  (length (heap w)) (word_of_int fk) e of
             Inl f \<Rightarrow> Inl f
           | Inr (ok, w2) \<Rightarrow>
               if ok
               then Inr (True, update_obj this
                      (\<lambda>_. setModified (pname p)
                         (ob\<lparr>members := (members ob)(pname p := ModelPtr c (Some (length (heap w))))\<rparr>))
                      w2)
               else Inr (False, w2)) \<and>
        (case load n S D (w\<lparr>heap := heap w @ [Model_ctor S c (garbage w (length (heap w)))]\<rparr>)
                (length (heap w)) (word_of_int fk) e of
           Inl f \<Rightarrow> True
         | Inr (ok, w2) \<Rightarrow> deref w2 this = Some ob \<and>
             (\<exists>obr. deref w2 (length (heap w)) = Some obr \<and> cls obr = c)) \<and>
        (\<exists>ok w3. loadRelated n S D w this (pname p) False = Inr (ok, w3)))"
    (is "?lazy \<and> ?absent \<and> ?present")
proof -
  have ?lazy
  proof (rule impI)
  assume a: "drv_prepare D (db w) (selectQuery_sql S (cls ob)) \<and>
      drv_exec D (db w) (bindValue '':id'' (ULongLong ident)
        (prepared (selectQuery_sql S (cls ob)))) = (ExecOk lid (Some row), db') \<and>
      row (pname p) = Some (LongLong fk)"
  let ?w0 = "w\<lparr>db := db', trace := trace w @
      [bindValue '':id'' (ULongLong ident) (prepared (selectQuery_sql S (cls ob)))]\<rparr>"
  let ?ob' = "foldl (lazy_round S row) ob (properties S (cls ob))"
  from a have rv: "row_value row (pname p) = LongLong fk" by (simp add: row_value_def)
  have ld: "load n S D w this ident False = Inr (True, update_obj this (\<lambda>_. ?ob') ?w0)"
    using assms(1) a by (simp add: load_lazy)
  have "deref ?w0 this = Some ob"
    using assms(1) by (auto simp: deref_def split: if_splits)
  then have d: "deref (update_obj this (\<lambda>_. ?ob') ?w0) this = Some ?ob'"
    by (rule update_obj_deref)
  from foldl_lazy_round_relation [OF assms(2-4) rv assms(6) refl subset_refl assms(2)]
  have "members ?ob' (pname p) = members ob (pname p)"
    "dynamicProperties ?ob' (pname p @ ''Id'') = Some (LongLong fk)"
    using assms(3) by simp_all
  with ld d
  show "\<exists>w' ob'. load n S D w this ident False = Inr (True, w') \<and> deref w' this = Some ob' \<and>
           dynamicProperties ob' (pname p @ ''Id'') = Some (LongLong fk) \<and>
           members ob' (pname p) = members ob (pname p)"
    by blast
  qed
  moreover have ?absent
    using assms(1) by (simp add: loadRelated_def domIff)
  moreover have ?present
  proof (rule impI)
    assume key: "dynamicProperties ob (pname p @ ''Id'') = Some (LongLong fk)"
    let ?r = "length (heap w)"
    let ?w1 = "w\<lparr>heap := heap w @ [Model_ctor S c (garbage w ?r)]\<rparr>"
    let ?ob3 = "setModified (pname p) (ob\<lparr>members := (members ob)(pname p := ModelPtr c (Some ?r))\<rparr>)"
    have k: "ucast (toUInt (LongLong fk)) = (word_of_int fk :: model_id_t)"
      using assms(8,9) by (rule toUInt_in_range)
    have wp: "writeProperty S p (ModelPtr c (Some ?r)) ob = Some ?ob3"
      using assms(4,5) by (simp add: writeProperty_def convert_def)
    have run: "loadRelated n S D w this (pname p) b =
        (case load n S D ?w1 ?r (word_of_int fk) b of
           Inl f \<Rightarrow> Inl f
         | Inr (ok, w2) \<Rightarrow>
             if ok then Inr (True, update_obj this (\<lambda>_. ?ob3) w2) else Inr (False, w2)) \<and>
        (case load n S D ?w1 ?r (word_of_int fk) b of
           Inl f \<Rightarrow> True
         | Inr (ok, w2) \<Rightarrow> deref w2 this = Some ob \<and>
             (\<exists>obr. deref w2 ?r = Some obr \<and> cls obr = c))" for b
    proof (cases "load n S D ?w1 ?r (word_of_int fk) b")
      case (Inl f)
      have cr: "createRelatedInstance S w (lookupProperty S (cls ob) (pname p)) = Inr (Some ?r, ?w1)"
        using assms(2-4,7) by (simp add: lookup_declared createRelatedInstance_def)
      have gp: "getProperty S ob (pname p @ ''Id'') = LongLong fk"
        using assms(6) key by (simp add: getProperty_def)
      from Inl assms(1) key cr gp k show ?thesis
        by (simp add: loadRelated_def domIff)
    next
      case (Inr r)
      obtain ok w2 where r: "r = (ok, w2)" by (cases r)
      with Inr k have ld: "load n S D ?w1 ?r (ucast (toUInt (LongLong fk))) b = Inr (ok, w2)"
        by simp
      note u = loadRelated_unfold [OF assms(1-4,6) key assms(7) ld]
      have "update_obj this (\<lambda>ob2. case writeProperty S p (ModelPtr c (Some ?r)) ob2 of
                          None \<Rightarrow> ob2 | Some ob' \<Rightarrow> ob') w2 = update_obj this (\<lambda>_. ?ob3) w2"
        using update_obj_const [OF u(1), of "\<lambda>ob2. case writeProperty S p (ModelPtr c (Some ?r)) ob2 of
                          None \<Rightarrow> ob2 | Some ob' \<Rightarrow> ob'"] wp by simp
      with u Inr r show ?thesis by simp
    qed
    from load_lazy_returns [of ?w1 ?r "Model_ctor S c (garbage w ?r)" n S D "word_of_int fk"]
    obtain ok w2 where "load n S D ?w1 ?r (word_of_int fk) False = Inr (ok, w2)"
      by (auto simp: deref_def)
    with run [of False] have "\<exists>ok w3. loadRelated n S D w this (pname p) False = Inr (ok, w3)"
      by (cases ok) auto
    with run [of e]
    show "loadRelated n S D w this (pname p) e =
          (case load n S D ?w1 ?r (word_of_int fk) e of
             Inl f \<Rightarrow> Inl f
           | Inr (ok, w2) \<Rightarrow>
               if ok then Inr (True, update_obj this (\<lambda>_. ?ob3) w2) else Inr (False, w2)) \<and>
        (case load n S D ?w1 ?r (word_of_int fk) e of
           Inl f \<Rightarrow> True
         | Inr (ok, w2) \<Rightarrow> deref w2 this = Some ob \<and>
             (\<exists>obr. deref w2 ?r = Some obr \<and> cls obr = c)) \<and>
        (\<exists>ok w3. loadRelated n S D w this (pname p) False = Inr (ok, w3))"
      by blast
  qed
  ultimately show ?thesis by (intro conjI)
qed

lemma demo_order_lookup:
  "distinct (map pname (properties demo_schema ''Order''))"
  "\<lparr>pname = ''customer'', ptype = TModel ''Customer'', pwritable = True\<rparr>
     \<in> set (properties demo_schema ''Order'')"
  "lookupProperty demo_schema ''Order'' ''customerId'' = None"
  by (simp_all add: demo_schema_simps order_properties_def lookupProperty_def)

lemma demo_select_order_5:
  "drv_exec demo_driver 6 (bindValue '':id'' (ULongLong 5)
      (prepared ''SELECT total,customer FROM orders WHERE id = :id'')) =
     (ExecOk (LongLong 6) (Some [''total'' \<mapsto> LongLong 42, ''customer'' \<mapsto> LongLong 7]), 6)"
  by (simp add: demo_driver_def demo_rows_def bindValue_def prepared_def)

lemma demo_load_customer_7:
  "\<exists>w2. load (Suc 0) demo_schema demo_driver
      (lazy_order\<lparr>heap := heap lazy_order @
         [Model_ctor demo_schema ''Customer'' (garbage lazy_order (length (heap lazy_order)))]\<rparr>)
      (length (heap lazy_order)) 7 True = Inr (True, w2) \<and>
      members (heap w2 ! 1) ''name'' = Text ''Ann''"
  by (simp add: lazy_order_def demo_world_def load.simps deref_def Model_ctor_def
      demo_select_sql demo_driver_def demo_rows_def bindValue_def prepared_def
      demo_schema_simps customer_properties_def loadProperties.simps resolveRelated.simps
      isPropertyModel_def row_value_def writeProperty_def convert_def update_obj_def
      setModified_def)

theorem lazy_relation_then_loadRelated_witness:
  "(\<exists>w' ob'. load 1 demo_schema demo_driver fresh_order 0 5 False = Inr (True, w') \<and>
      deref w' 0 = Some ob' \<and>
      dynamicProperties ob' ''customerId'' = Some (LongLong 7) \<and>
      members ob' ''customer'' = ModelPtr ''Customer'' None) \<and>
   loadRelated 1 demo_schema demo_driver fresh_order 0 ''customer'' True = Inr (False, fresh_order) \<and>
   (\<exists>w3 ob3. loadRelated 1 demo_schema demo_driver lazy_order 0 ''customer'' True = Inr (True, w3) \<and>
      deref w3 0 = Some ob3 \<and>
      members ob3 ''customer'' = ModelPtr ''Customer'' (Some 1) \<and>
      dynamicProperties ob3 ''customerId'' = Some (LongLong 7) \<and>
      cls (heap w3 ! 1) = ''Customer'' \<and> members (heap w3 ! 1) ''name'' = Text ''Ann'')"
proof -
  let ?p = "\<lparr>pname = ''customer'', ptype = TModel ''Customer'', pwritable = True\<rparr>"
  let ?fresh = "Model_ctor demo_schema ''Order'' 0"
  let ?lazy = "?fresh\<lparr>dynamicProperties := [''customerId'' \<mapsto> LongLong 7]\<rparr>"
  have f: "deref fresh_order 0 = Some ?fresh" "cls ?fresh = ''Order''"
    "db fresh_order = 6" "dynamicProperties ?fresh ''customerId'' = None"
    "members ?fresh ''customer'' = ModelPtr ''Customer'' None"
    by (simp_all add: fresh_order_def deref_demo demo_world_simps Model_ctor_simps demo_schema_simps)
  have l: "deref lazy_order 0 = Some ?lazy" "cls ?lazy = ''Order''" "length (heap lazy_order) = 1"
    by (simp_all add: lazy_order_def deref_demo demo_world_simps Model_ctor_simps)
  obtain w2 where w2: "load (Suc 0) demo_schema demo_driver
      (lazy_order\<lparr>heap := heap lazy_order @
         [Model_ctor demo_schema ''Customer'' (garbage lazy_order (length (heap lazy_order)))]\<rparr>)
      (length (heap lazy_order)) 7 True = Inr (True, w2)"
    and ann: "members (heap w2 ! 1) ''name'' = Text ''Ann''"
    using demo_load_customer_7 by blast
  from lazy_relation_then_loadRelated [where w = fresh_order and this = 0 and ob = ?fresh
      and S = demo_schema and p = ?p and c = "''Customer''" and D = demo_driver and ident = 5
      and lid = "LongLong 6" and row = "[''total'' \<mapsto> LongLong 42, ''customer'' \<mapsto> LongLong 7]"
      and db' = 6 and fk = 7 and n = 1 and name = "''customer''" and e = True]
  have a: "(\<exists>w' ob'. load 1 demo_schema demo_driver fresh_order 0 5 False = Inr (True, w') \<and>
      deref w' 0 = Some ob' \<and>
      dynamicProperties ob' ''customerId'' = Some (LongLong 7) \<and>
      members ob' ''customer'' = ModelPtr ''Customer'' None)"
    and b: "loadRelated 1 demo_schema demo_driver fresh_order 0 ''customer'' True =
      Inr (False, fresh_order)"
    by (simp_all add: f demo_order_lookup demo_select_sql demo_exec demo_select_order_5
        demo_schema_simps(5))
  from lazy_relation_then_loadRelated [where w = lazy_order and this = 0 and ob = ?lazy
      and S = demo_schema and p = ?p and c = "''Customer''" and D = demo_driver
      and n = 1 and e = True and fk = 7] w2
  have c: "loadRelated 1 demo_schema demo_driver lazy_order 0 ''customer'' True =
      Inr (True, update_obj 0
        (\<lambda>_. setModified ''customer''
           (?lazy\<lparr>members := (members ?lazy)(''customer'' := ModelPtr ''Customer'' (Some 1))\<rparr>)) w2)"
    and d: "deref w2 0 = Some ?lazy" "\<exists>obr. deref w2 1 = Some obr \<and> cls obr = ''Customer''"
    by (simp_all add: l demo_order_lookup demo_schema_simps Model_ctor_simps order_properties_def)
  from d have "deref (update_obj 0
        (\<lambda>_. setModified ''customer''
           (?lazy\<lparr>members := (members ?lazy)(''customer'' := ModelPtr ''Customer'' (Some 1))\<rparr>)) w2) 0 =
      Some (setModified ''customer''
           (?lazy\<lparr>members := (members ?lazy)(''customer'' := ModelPtr ''Customer'' (Some 1))\<rparr>))"
    "heap (update_obj 0
        (\<lambda>_. setModified ''customer''
           (?lazy\<lparr>members := (members ?lazy)(''customer'' := ModelPtr ''Customer'' (Some 1))\<rparr>)) w2) ! 1 =
      heap w2 ! 1"
    "cls (heap w2 ! 1) = ''Customer''"
    by (auto simp: deref_def update_obj_def split: if_splits)
  with c ann have "\<exists>w3 ob3. loadRelated 1 demo_schema demo_driver lazy_order 0 ''customer'' True = Inr (True, w3) \<and>
      deref w3 0 = Some ob3 \<and>
      members ob3 ''customer'' = ModelPtr ''Customer'' (Some 1) \<and>
      dynamicProperties ob3 ''customerId'' = Some (LongLong 7) \<and>
      cls (heap w3 ! 1) = ''Customer'' \<and> members (heap w3 ! 1) ''name'' = Text ''Ann''"
    by (simp add: setModified_def Model_ctor_simps)
  with a b show ?thesis by (intro conjI)
qed

subsection \<open>The values a load leaves in the attributes\<close>









subsection \<open>What a load reports\<close>








end
